theory Spec2Isabelle
  imports Complex_Main "HOL-Library.Log_Nat"
begin

section \<open>Values, frames, tables and the world the tasks act on\<close>

text \<open>
  The pipeline of \<^verbatim>\<open>itsm_data_pipeline.py\<close> moves a table of ticket records from a
  spreadsheet through a CSV file into the relation \<^verbatim>\<open>itsm_raw_tickets\<close>. A value of a
  frame or of the relation is a \<open>cell\<close>: \<open>NullC\<close> stands for NaN, NaT, None and SQL NULL
  (pandas writes every missing value as NULL), \<open>TsC n\<close> is a \<^verbatim>\<open>datetime64[ns]\<close> value,
  \<open>n\<close> nanoseconds after the epoch, and \<open>TsTextC n\<close> is the text a CSV file holds for
  that timestamp, a string whose characters are not modelled.
\<close>

datatype cell =
  NullC | IntC int | FloatC real | BoolC bool | StrC string | TsC int | TsTextC int

type_synonym row = "string \<rightharpoonup> cell"

record dataframe =
  df_columns :: "string list"
  df_rows :: "row list"

datatype sqltype = TEXT | TIMESTAMP | NUMERIC | BIGINT | FLOAT53 | BOOLEAN

record table =
  tbl_columns :: "(string \<times> sqltype) list"
  tbl_rows :: "row list"

datatype exn =
    KeyError string
  | OverflowError
  | FileNotFoundError string
  | UndefinedTable string
  | UndefinedColumn string
  | UndefinedFunction string
  | OtherError string

text \<open>
  One constructor for each logging call of the source, carrying the values its f-string
  interpolates.
\<close>

datatype log_entry =
    Info_extracted nat
  | Info_columns "string list"
  | Info_missing "(string \<times> nat) list"
  | Info_saved
  | Error_extraction exn
  | Info_loaded nat
  | Error_loading exn
  | Warning_duplicates nat
  | Warning_outliers nat
  | Info_checks_completed
  | Error_checks exn

datatype level = INFO | WARNING | ERROR

fun level_of :: "log_entry \<Rightarrow> level" where
  "level_of (Info_extracted _) = INFO"
| "level_of (Info_columns _) = INFO"
| "level_of (Info_missing _) = INFO"
| "level_of Info_saved = INFO"
| "level_of (Error_extraction _) = ERROR"
| "level_of (Info_loaded _) = INFO"
| "level_of (Error_loading _) = ERROR"
| "level_of (Warning_duplicates _) = WARNING"
| "level_of (Warning_outliers _) = WARNING"
| "level_of Info_checks_completed = INFO"
| "level_of (Error_checks _) = ERROR"

text \<open>The calls into the database, each of which the server may refuse.\<close>

datatype db_call = GetEngine | ToSql | DuplicateQuery | OutlierQuery | CreateTable

text \<open>
  The world outside the task functions. \<open>excel_file\<close> is what \<^verbatim>\<open>pd.read_excel\<close> returns
  or raises for the fixed path and sheet; \<open>staging_csv\<close> is what \<^verbatim>\<open>pd.read_csv\<close> returns
  or raises for \<^verbatim>\<open>/tmp/itsm_staging.csv\<close>; \<open>csv_write_fault\<close> and \<open>db_fault\<close> say which
  writes and database calls fail, and with which exception; \<open>itsm_raw_tickets\<close> is the
  relation of that name, when it exists. The source calls \<^verbatim>\<open>read_csv\<close> with the path
  alone, so no column is parsed as a date and the frame it returns holds no \<open>TsC\<close>. What
  a failed write leaves behind is not modelled: the file and the relation keep their
  earlier value.
\<close>

record world =
  excel_file :: "exn + dataframe"
  csv_write_fault :: "exn option"
  staging_csv :: "exn + dataframe"
  db_fault :: "db_call \<Rightarrow> exn option"
  itsm_raw_tickets :: "table option"
  logs :: "log_entry list"

definition logging :: "log_entry \<Rightarrow> world \<Rightarrow> world" where
  "logging m w = w\<lparr>logs := logs w @ [m]\<rparr>"

text \<open>
  \<^verbatim>\<open>except Exception as e: logging.error(...); raise\<close>: the handler every task body is
  wrapped in. A task returns \<open>Inl e\<close> when it raises \<open>e\<close>, with the world it leaves.
\<close>

definition log_and_reraise ::
    "(exn \<Rightarrow> log_entry) \<Rightarrow> (exn + unit) \<times> world \<Rightarrow> (exn + unit) \<times> world" where
  "log_and_reraise msg res =
     (case res of
        (Inl e, w) \<Rightarrow> (Inl e, logging (msg e) w)
      | (Inr u, w) \<Rightarrow> (Inr u, w))"

section \<open>The quality checker\<close>

definition cell_at :: "row \<Rightarrow> string \<Rightarrow> cell" where
  "cell_at r c = (case r c of Some v \<Rightarrow> v | None \<Rightarrow> NullC)"

text \<open>
  \<^verbatim>\<open>SELECT inc_number, COUNT(*) FROM itsm_raw_tickets GROUP BY inc_number\<close>: one group
  for each distinct value of the column, NULL included, with the number of its rows.
\<close>

definition group_count :: "string \<Rightarrow> row list \<Rightarrow> (cell \<times> nat) list" where
  "group_count c rs =
     map (\<lambda>k. (k, length (filter (\<lambda>r. cell_at r c = k) rs))) (remdups (map (\<lambda>r. cell_at r c) rs))"

text \<open>
  The duplicate query: \<^verbatim>\<open>SELECT COUNT(*) FROM (... HAVING COUNT(*) > 1) t\<close>, on the rows
  of the relation.
\<close>

definition duplicate_count :: "row list \<Rightarrow> nat" where
  "duplicate_count rs = length (filter (\<lambda>(k, n). 1 < n) (group_count ''inc_number'' rs))"

text \<open>
  SQL's three-valued logic: a comparison with NULL is unknown (\<open>None\<close>), \<^verbatim>\<open>OR\<close> is
  Kleene's, and \<^verbatim>\<open>WHERE\<close> keeps the rows whose condition is true.
\<close>

fun sql_num :: "cell \<Rightarrow> real option" where
  "sql_num (IntC n) = Some (of_int n)"
| "sql_num (FloatC x) = Some x"
| "sql_num _ = None"

definition sql_gt :: "cell \<Rightarrow> real \<Rightarrow> bool option" where
  "sql_gt v k = map_option (\<lambda>x. k < x) (sql_num v)"

definition sql_lt :: "cell \<Rightarrow> real \<Rightarrow> bool option" where
  "sql_lt v k = map_option (\<lambda>x. x < k) (sql_num v)"

fun sql_or :: "bool option \<Rightarrow> bool option \<Rightarrow> bool option" where
  "sql_or (Some True) _ = Some True"
| "sql_or _ (Some True) = Some True"
| "sql_or (Some False) (Some False) = Some False"
| "sql_or _ _ = None"

definition outlier_condition :: "row \<Rightarrow> bool option" where
  "outlier_condition r =
     sql_or (sql_gt (cell_at r ''resolution_time_hours'') 720)
            (sql_lt (cell_at r ''resolution_time_hours'') 0)"

definition outlier_count :: "row list \<Rightarrow> nat" where
  "outlier_count rs = length (filter (\<lambda>r. outlier_condition r = Some True) rs)"

definition is_numeric :: "sqltype \<Rightarrow> bool" where
  "is_numeric t = (t = NUMERIC \<or> t = BIGINT \<or> t = FLOAT53)"

text \<open>
  \<^verbatim>\<open>postgres_hook.get_first(sql)[0]\<close> for the two queries. The call raises when the server
  refuses it, when the relation or the column does not exist, and, for the outlier query,
  when the column's type has no comparison with an integer.
\<close>

definition duplicate_query :: "world \<Rightarrow> exn + nat" where
  "duplicate_query w =
     (case db_fault w DuplicateQuery of
        Some e \<Rightarrow> Inl e
      | None \<Rightarrow>
          (case itsm_raw_tickets w of
             None \<Rightarrow> Inl (UndefinedTable ''itsm_raw_tickets'')
           | Some t \<Rightarrow>
               (case map_of (tbl_columns t) ''inc_number'' of
                  None \<Rightarrow> Inl (UndefinedColumn ''inc_number'')
                | Some ty \<Rightarrow> Inr (duplicate_count (tbl_rows t)))))"

definition outlier_query :: "world \<Rightarrow> exn + nat" where
  "outlier_query w =
     (case db_fault w OutlierQuery of
        Some e \<Rightarrow> Inl e
      | None \<Rightarrow>
          (case itsm_raw_tickets w of
             None \<Rightarrow> Inl (UndefinedTable ''itsm_raw_tickets'')
           | Some t \<Rightarrow>
               (case map_of (tbl_columns t) ''resolution_time_hours'' of
                  None \<Rightarrow> Inl (UndefinedColumn ''resolution_time_hours'')
                | Some ty \<Rightarrow>
                    if is_numeric ty then Inr (outlier_count (tbl_rows t))
                    else Inl (UndefinedFunction ''operator does not exist''))))"

text \<open>
  The body of \<^verbatim>\<open>run_data_quality_checks\<close>: each count is compared with 0 and logged as a
  warning when it is positive; nothing is raised for a finding.
\<close>

definition run_data_quality_checks_body :: "world \<Rightarrow> (exn + unit) \<times> world" where
  "run_data_quality_checks_body w =
     (case duplicate_query w of
        Inl e \<Rightarrow> (Inl e, w)
      | Inr duplicate_check \<Rightarrow>
          (let w1 = (if 0 < duplicate_check then logging (Warning_duplicates duplicate_check) w
                     else w)
           in case outlier_query w1 of
                Inl e \<Rightarrow> (Inl e, w1)
              | Inr outlier_check \<Rightarrow>
                  (let w2 = (if 0 < outlier_check
                             then logging (Warning_outliers outlier_check) w1 else w1)
                   in (Inr (), logging Info_checks_completed w2))))"

definition run_data_quality_checks :: "world \<Rightarrow> (exn + unit) \<times> world" where
  "run_data_quality_checks w = log_and_reraise Error_checks (run_data_quality_checks_body w)"

section \<open>The library calls the tasks make\<close>

text \<open>
  What the source takes from pandas and does not define: how \<^verbatim>\<open>pd.to_datetime\<close>
  converts a value that is not already a timestamp (strings through the date parser,
  numbers as offsets from the epoch; it may raise), what \<^verbatim>\<open>.dt.total_seconds()\<close>
  returns for a difference of so many nanoseconds, and what \<^verbatim>\<open>pd.read_csv\<close> returns, or
  raises, for the file \<^verbatim>\<open>to_csv\<close> writes from a frame.
\<close>

record pandas =
  parse_datetime :: "cell \<Rightarrow> exn + int option"
  total_seconds :: "int \<Rightarrow> real"
  read_back :: "dataframe \<Rightarrow> exn + dataframe"

definition bind_exn :: "exn + 'a \<Rightarrow> ('a \<Rightarrow> exn + 'b) \<Rightarrow> exn + 'b" where
  "bind_exn m f = (case m of Inl e \<Rightarrow> Inl e | Inr x \<Rightarrow> f x)"

fun sequence_exn :: "(exn + 'a) list \<Rightarrow> exn + 'a list" where
  "sequence_exn [] = Inr []"
| "sequence_exn (m # ms) =
     bind_exn m (\<lambda>x. bind_exn (sequence_exn ms) (\<lambda>xs. Inr (x # xs)))"

section \<open>The extractor\<close>

text \<open>\<^verbatim>\<open>df[c]\<close>: the column's values, KeyError when the frame has no such column.\<close>

definition getitem :: "dataframe \<Rightarrow> string \<Rightarrow> exn + cell list" where
  "getitem df c =
     (if c \<in> set (df_columns df) then Inr (map (\<lambda>r. cell_at r c) (df_rows df))
      else Inl (KeyError c))"

text \<open>
  \<^verbatim>\<open>df[c] = values\<close>: the column is replaced where it is, or added as the last one.
\<close>

definition setitem :: "dataframe \<Rightarrow> string \<Rightarrow> cell list \<Rightarrow> dataframe" where
  "setitem df c vs =
     \<lparr>df_columns = (if c \<in> set (df_columns df) then df_columns df else df_columns df @ [c]),
      df_rows = map (\<lambda>(r, v). r(c \<mapsto> v)) (zip (df_rows df) vs)\<rparr>"

text \<open>\<^verbatim>\<open>df.isnull().sum()\<close>: the number of missing values of each column.\<close>

definition isnull_sum :: "dataframe \<Rightarrow> (string \<times> nat) list" where
  "isnull_sum df =
     map (\<lambda>c. (c, length (filter (\<lambda>r. cell_at r c = NullC) (df_rows df)))) (df_columns df)"

text \<open>
  \<^verbatim>\<open>pd.to_datetime\<close> on a column: a timestamp stays, a missing value is NaT (\<open>None\<close>),
  anything else goes through the library's conversion.
\<close>

definition to_datetime_cell :: "pandas \<Rightarrow> cell \<Rightarrow> exn + int option" where
  "to_datetime_cell pd c =
     (case c of TsC t \<Rightarrow> Inr (Some t) | NullC \<Rightarrow> Inr None | _ \<Rightarrow> parse_datetime pd c)"

definition to_datetime :: "pandas \<Rightarrow> cell list \<Rightarrow> exn + int option list" where
  "to_datetime pd cs = sequence_exn (map (to_datetime_cell pd) cs)"

text \<open>
  The difference of two \<^verbatim>\<open>datetime64[ns]\<close> values is a count of nanoseconds in 64 bits.
  NaT on either side gives NaT. A difference outside 64 bits raises; the difference
  \<open>- 2\<^sup>6\<^sup>3\<close> fits, but it is the bit pattern of NaT, so the result there is NaT and nothing
  is raised.
\<close>

definition int64_range :: "int \<Rightarrow> bool" where
  "int64_range d = (- (2 ^ 63) < d \<and> d < 2 ^ 63)"

definition sub_datetime :: "int option \<Rightarrow> int option \<Rightarrow> exn + int option" where
  "sub_datetime a b =
     (case (a, b) of
        (Some x, Some y) \<Rightarrow>
          if x - y = - (2 ^ 63) then Inr None
          else if int64_range (x - y) then Inr (Some (x - y))
          else Inl OverflowError
      | _ \<Rightarrow> Inr None)"

definition sub_series :: "int option list \<Rightarrow> int option list \<Rightarrow> exn + int option list" where
  "sub_series xs ys = sequence_exn (map (\<lambda>(a, b). sub_datetime a b) (zip xs ys))"

text \<open>
  The division \<^verbatim>\<open>/ 3600\<close> is a division of doubles: the exact quotient rounded to the
  nearest binary64 value, ties to the even significand. \<open>binade x\<close> is the exponent \<open>e\<close>
  with \<open>2\<^sup>e \<le> x < 2\<^sup>e\<^sup>+\<^sup>1\<close> of a positive \<open>x\<close>, computed from the bit length of its integer
  part, or of the integer part of its inverse. \<open>float64\<close> rounds a real to 53 significant
  bits; the exponent range of the format is not modelled (a count of seconds in 64 bits of
  nanoseconds divided by 3600 is far inside it).
\<close>

definition round_half_even :: "real \<Rightarrow> int" where
  "round_half_even x =
     (let n = \<lfloor>x\<rfloor>; d = x - of_int n
      in if d < 1 / 2 then n else if 1 / 2 < d then n + 1 else if even n then n else n + 1)"

definition binade :: "real \<Rightarrow> int" where
  "binade x = (if 1 \<le> x then bitlen \<lfloor>x\<rfloor> - 1 else - bitlen (\<lceil>1 / x\<rceil> - 1))"

definition float64 :: "real \<Rightarrow> real" where
  "float64 x =
     (if x = 0 then 0
      else (let q = binade \<bar>x\<bar> - 52
            in of_int (round_half_even (x / 2 powi q)) * 2 powi q))"

definition truediv :: "real \<Rightarrow> real \<Rightarrow> real" where
  "truediv x y = float64 (x / y)"

definition hours_cell :: "pandas \<Rightarrow> int option \<Rightarrow> cell" where
  "hours_cell pd d =
     (case d of None \<Rightarrow> NullC | Some n \<Rightarrow> FloatC (truediv (total_seconds pd n) 3600))"

text \<open>
  The right-hand side of the assignment to \<^verbatim>\<open>df['resolution_time_hours']\<close>, in the
  order Python evaluates it.
\<close>

definition resolution_time_hours :: "pandas \<Rightarrow> dataframe \<Rightarrow> exn + cell list" where
  "resolution_time_hours pd df =
     bind_exn (getitem df ''inc_resolved_at'') (\<lambda>rs.
     bind_exn (to_datetime pd rs) (\<lambda>resolved.
     bind_exn (getitem df ''inc_sys_created_on'') (\<lambda>cs.
     bind_exn (to_datetime pd cs) (\<lambda>created.
     bind_exn (sub_series resolved created) (\<lambda>delta.
     Inr (map (hours_cell pd) delta))))))"

text \<open>
  The body of \<^verbatim>\<open>extract_itsm_data\<close>. \<^verbatim>\<open>to_csv\<close> writes the frame with the new column
  to the staging file, so that \<^verbatim>\<open>read_csv\<close> afterwards returns what the library reads back
  from it.
\<close>

definition extract_itsm_data_body :: "pandas \<Rightarrow> world \<Rightarrow> (exn + unit) \<times> world" where
  "extract_itsm_data_body pd w =
     (case excel_file w of
        Inl e \<Rightarrow> (Inl e, w)
      | Inr df \<Rightarrow>
          (let w1 = logging (Info_extracted (length (df_rows df))) w;
               w2 = logging (Info_columns (df_columns df)) w1;
               missing_data = isnull_sum df;
               w3 = logging (Info_missing (filter (\<lambda>(c, n). 0 < n) missing_data)) w2
           in case resolution_time_hours pd df of
                Inl e \<Rightarrow> (Inl e, w3)
              | Inr hours \<Rightarrow>
                  (case csv_write_fault w3 of
                     Some e \<Rightarrow> (Inl e, w3)
                   | None \<Rightarrow>
                       (Inr (),
                        logging Info_saved
                          (w3\<lparr>staging_csv :=
                                read_back pd (setitem df ''resolution_time_hours'' hours)\<rparr>)))))"

definition extract_itsm_data :: "pandas \<Rightarrow> world \<Rightarrow> (exn + unit) \<times> world" where
  "extract_itsm_data pd w = log_and_reraise Error_extraction (extract_itsm_data_body pd w)"

section \<open>The schema initializer\<close>

definition staging_schema :: "(string \<times> sqltype) list" where
  "staging_schema =
     [(''inc_business_service'', TEXT),
      (''inc_category'', TEXT),
      (''inc_number'', TEXT),
      (''inc_priority'', TEXT),
      (''inc_sla_due'', TEXT),
      (''inc_sys_created_on'', TIMESTAMP),
      (''inc_resolved_at'', TIMESTAMP),
      (''inc_assigned_to'', TEXT),
      (''inc_state'', TEXT),
      (''inc_cmdb_ci'', TEXT),
      (''inc_caller_id'', TEXT),
      (''inc_short_description'', TEXT),
      (''inc_assignment_group'', TEXT),
      (''inc_close_code'', TEXT),
      (''inc_close_notes'', TEXT),
      (''resolution_time_hours'', NUMERIC)]"

text \<open>
  \<^verbatim>\<open>CREATE TABLE IF NOT EXISTS itsm_raw_tickets (...)\<close>, the statement of the task
  \<^verbatim>\<open>create_staging_table\<close>: when a relation of that name exists the statement does
  nothing, otherwise it creates the empty relation with the sixteen columns.
\<close>

definition create_staging_table :: "world \<Rightarrow> (exn + unit) \<times> world" where
  "create_staging_table w =
     (case db_fault w CreateTable of
        Some e \<Rightarrow> (Inl e, w)
      | None \<Rightarrow>
          (case itsm_raw_tickets w of
             Some t \<Rightarrow> (Inr (), w)
           | None \<Rightarrow>
               (Inr (),
                w\<lparr>itsm_raw_tickets := Some \<lparr>tbl_columns = staging_schema, tbl_rows = []\<rparr>\<rparr>)))"

section \<open>The loader\<close>

text \<open>
  The SQL type \<^verbatim>\<open>to_sql\<close> gives a column of a frame read from CSV. It looks at the values
  of the column that are not missing: booleans give \<open>BOOLEAN\<close>, integers \<open>BIGINT\<close>, numbers
  \<open>FLOAT(53)\<close>, timestamps \<open>TIMESTAMP\<close>, and text or a mixture \<open>TEXT\<close>. A column of integers
  with a missing value is read from CSV as a column of floats, and so is a column with
  nothing but missing values; a column of a frame without rows is \<open>TEXT\<close>. The width of
  the integers is not modelled.
\<close>

definition is_bool :: "cell \<Rightarrow> bool" where
  "is_bool c = (case c of BoolC _ \<Rightarrow> True | _ \<Rightarrow> False)"

definition is_int :: "cell \<Rightarrow> bool" where
  "is_int c = (case c of IntC _ \<Rightarrow> True | _ \<Rightarrow> False)"

definition is_number :: "cell \<Rightarrow> bool" where
  "is_number c = (case c of IntC _ \<Rightarrow> True | FloatC _ \<Rightarrow> True | _ \<Rightarrow> False)"

definition is_timestamp :: "cell \<Rightarrow> bool" where
  "is_timestamp c = (case c of TsC _ \<Rightarrow> True | _ \<Rightarrow> False)"

definition sqlalchemy_type :: "cell list \<Rightarrow> sqltype" where
  "sqlalchemy_type cs =
     (let vs = filter (\<lambda>c. c \<noteq> NullC) cs
      in if vs = [] then (if cs = [] then TEXT else FLOAT53)
         else if list_all is_bool vs then BOOLEAN
         else if list_all is_int cs then BIGINT
         else if list_all is_number vs then FLOAT53
         else if list_all is_timestamp vs then TIMESTAMP
         else TEXT)"

text \<open>
  \<^verbatim>\<open>df.to_sql('itsm_raw_tickets', engine, if_exists='replace', index=False)\<close>: the
  relation is dropped when it exists, created from the frame's columns, each with the
  type its values give it, and filled with the frame's rows.
\<close>

definition table_of_frame :: "dataframe \<Rightarrow> table" where
  "table_of_frame df =
     \<lparr>tbl_columns =
        map (\<lambda>c. (c, sqlalchemy_type (map (\<lambda>r. cell_at r c) (df_rows df)))) (df_columns df),
      tbl_rows = df_rows df\<rparr>"

definition to_sql_replace :: "dataframe \<Rightarrow> world \<Rightarrow> exn + world" where
  "to_sql_replace df w =
     (case db_fault w ToSql of
        Some e \<Rightarrow> Inl e
      | None \<Rightarrow> Inr (w\<lparr>itsm_raw_tickets := Some (table_of_frame df)\<rparr>))"

text \<open>
  The body of \<^verbatim>\<open>load_to_postgres\<close>: read the staging file, get the engine, replace the
  relation, log the number of rows.
\<close>

definition load_to_postgres_body :: "world \<Rightarrow> (exn + unit) \<times> world" where
  "load_to_postgres_body w =
     (case staging_csv w of
        Inl e \<Rightarrow> (Inl e, w)
      | Inr df \<Rightarrow>
          (case db_fault w GetEngine of
             Some e \<Rightarrow> (Inl e, w)
           | None \<Rightarrow>
               (case to_sql_replace df w of
                  Inl e \<Rightarrow> (Inl e, w)
                | Inr w1 \<Rightarrow> (Inr (), logging (Info_loaded (length (df_rows df))) w1))))"

definition load_to_postgres :: "world \<Rightarrow> (exn + unit) \<times> world" where
  "load_to_postgres w = log_and_reraise Error_loading (load_to_postgres_body w)"

section \<open>The task graph\<close>

datatype task =
    extract_data_task
  | create_staging_table_task
  | load_data_task
  | data_quality_task
  | run_dbt_task
  | run_dbt_tests_task

text \<open>
  \<^verbatim>\<open>a >> b\<close> records \<open>b\<close> as downstream of \<open>a\<close> and evaluates to \<open>b\<close>, so that a chain
  \<^verbatim>\<open>a >> b >> c\<close> adds the edges \<open>(a, b)\<close> and \<open>(b, c)\<close>.
\<close>

definition rshift :: "task \<Rightarrow> task \<Rightarrow> (task \<times> task) set \<Rightarrow> task \<times> (task \<times> task) set" where
  "rshift a b es = (b, insert (a, b) es)"

text \<open>The two statements under \<^verbatim>\<open># Task dependencies\<close>, run on the empty graph.\<close>

definition dag_edges :: "(task \<times> task) set" where
  "dag_edges =
     (let (t1, e1) = rshift extract_data_task create_staging_table_task {};
          (t2, e2) = rshift t1 load_data_task e1;
          (t3, e3) = rshift t2 data_quality_task e2;
          (t4, e4) = rshift data_quality_task run_dbt_task e3;
          (t5, e5) = rshift t4 run_dbt_tests_task e4
      in e5)"

definition upstream :: "task \<Rightarrow> task set" where
  "upstream t = fst ` {e \<in> dag_edges. snd e = t}"

definition downstream :: "task \<Rightarrow> task set" where
  "downstream t = snd ` {e \<in> dag_edges. fst e = t}"

text \<open>
  The orchestrator's rule for this graph (every task has the default trigger rule): a
  task starts only when all its upstream tasks have completed. \<open>runs_in_order done ts\<close>
  says that the tasks \<open>ts\<close> can be run one after the other in that order, each once,
  after \<open>done\<close> have completed.
\<close>

fun runs_in_order :: "task list \<Rightarrow> task list \<Rightarrow> bool" where
  "runs_in_order done [] = True"
| "runs_in_order done (t # ts) =
     (t \<notin> set done \<and> upstream t \<subseteq> set done \<and> runs_in_order (done @ [t]) ts)"

section \<open>Notions the properties are stated with\<close>

text \<open>The log entries a run has added to the log it started with.\<close>

definition new_logs :: "world \<Rightarrow> world \<Rightarrow> log_entry list" where
  "new_logs w w' = drop (length (logs w)) (logs w')"

text \<open>
  A duration that is negative or exceeds 720, in the words of the outlier check's
  contract: a value that is present and strictly below 0 or strictly above 720.
\<close>

fun flagged_duration :: "cell \<Rightarrow> bool" where
  "flagged_duration (IntC i) = (i < 0 \<or> 720 < i)"
| "flagged_duration (FloatC x) = (x < 0 \<or> 720 < x)"
| "flagged_duration _ = False"

section \<open>Example data\<close>

text \<open>
  A world in which nothing fails and no file exists, around a given state of the relation,
  and a relation as the loader leaves it, with four tickets: three share the incident
  number INC001, two have a duration outside the bounds, one has none.
\<close>

definition ticket :: "string \<Rightarrow> cell \<Rightarrow> row" where
  "ticket n h = [''inc_number'' \<mapsto> StrC n, ''resolution_time_hours'' \<mapsto> h]"

definition quiet_world :: "table option \<Rightarrow> world" where
  "quiet_world t =
     \<lparr>excel_file = Inl (FileNotFoundError ''Sample-Data-file-for-Analysis_Jan-25-1.xlsx''),
      csv_write_fault = None,
      staging_csv = Inl (FileNotFoundError ''/tmp/itsm_staging.csv''),
      db_fault = (\<lambda>c. None),
      itsm_raw_tickets = t,
      logs = []\<rparr>"

definition loaded_table :: "row list \<Rightarrow> table" where
  "loaded_table rs =
     \<lparr>tbl_columns = [(''inc_number'', TEXT), (''resolution_time_hours'', FLOAT53)],
      tbl_rows = rs\<rparr>"

definition four_tickets :: "row list" where
  "four_tickets =
     [ticket ''INC001'' (FloatC 800), ticket ''INC001'' (FloatC (- 1)),
      ticket ''INC001'' NullC, ticket ''INC002'' (FloatC 5)]"


text \<open>
  A world where the staging file holds the four tickets and the relation is the empty one
  the schema initializer creates.
\<close>

definition staged_frame :: dataframe where
  "staged_frame =
     \<lparr>df_columns = [''inc_number'', ''resolution_time_hours''], df_rows = four_tickets\<rparr>"

definition staged_world :: world where
  "staged_world =
     (quiet_world (Some \<lparr>tbl_columns = staging_schema, tbl_rows = []\<rparr>))
       \<lparr>staging_csv := Inr staged_frame\<rparr>"

text \<open>The order of the tasks as the pipeline's description gives it.\<close>

definition pipeline_order :: "task list" where
  "pipeline_order =
     [extract_data_task, create_staging_table_task, load_data_task, data_quality_task,
      run_dbt_task, run_dbt_tests_task]"

text \<open>
  The \<^verbatim>\<open>datetime64[ns]\<close> value of a civil date and time of day: the days since
  1970-01-01 in the proleptic Gregorian calendar, then the seconds, in nanoseconds.
\<close>

definition days_from_civil :: "int \<Rightarrow> int \<Rightarrow> int \<Rightarrow> int" where
  "days_from_civil y m d =
     (let y' = (if m \<le> 2 then y - 1 else y);
          era = y' div 400;
          yoe = y' - era * 400;
          doy = (153 * (if 2 < m then m - 3 else m + 9) + 2) div 5 + d - 1;
          doe = yoe * 365 + yoe div 4 - yoe div 100 + doy
      in era * 146097 + doe - 719468)"

definition Timestamp :: "int \<Rightarrow> int \<Rightarrow> int \<Rightarrow> int \<Rightarrow> int \<Rightarrow> int \<Rightarrow> int" where
  "Timestamp y m d hh mm ss =
     (((days_from_civil y m d * 24 + hh) * 60 + mm) * 60 + ss) * 10 ^ 9"

text \<open>
  An instance of the library for the examples. \<^verbatim>\<open>to_datetime\<close> converts the two texts of
  the duration example and raises on any other value that is not a timestamp (pandas
  converts more); \<^verbatim>\<open>total_seconds\<close> divides the nanoseconds by \<open>10\<^sup>9\<close> in doubles; a frame
  reads back from CSV as it was written, its timestamps as text.
\<close>

definition csv_cell :: "cell \<Rightarrow> cell" where
  "csv_cell c = (case c of TsC t \<Rightarrow> TsTextC t | _ \<Rightarrow> c)"

definition pandas2 :: pandas where
  "pandas2 =
     \<lparr>parse_datetime =
        (\<lambda>c. if c = StrC ''2024-01-01T00:00:00'' then Inr (Some (Timestamp 2024 1 1 0 0 0))
             else if c = StrC ''2024-01-02T00:00:00'' then Inr (Some (Timestamp 2024 1 2 0 0 0))
             else Inl (OtherError ''Unknown datetime string format'')),
      total_seconds = (\<lambda>n. float64 (float64 (of_int n) / 10 ^ 9)),
      read_back = (\<lambda>df. Inr (df\<lparr>df_rows := map (\<lambda>r. map_option csv_cell \<circ> r) (df_rows df)\<rparr>))\<rparr>"

text \<open>
  Four sheets: one with the ticket of the duration example (created 2024-01-01T00:00:00,
  resolved 2024-01-02T00:00:00) and a ticket that is not resolved; one with a ticket
  resolved a second after its creation; one with the ticket of the duration example, its
  timestamps as text; and one with a ticket whose resolution timestamp is \<open>2\<^sup>6\<^sup>3\<close>
  nanoseconds before its creation timestamp. Then the world in which the spreadsheet
  holds a given sheet.
\<close>

definition source_ticket :: "string \<Rightarrow> cell \<Rightarrow> cell \<Rightarrow> row" where
  "source_ticket n created resolved =
     [''inc_number'' \<mapsto> StrC n, ''inc_sys_created_on'' \<mapsto> created,
      ''inc_resolved_at'' \<mapsto> resolved]"

definition day_sheet :: dataframe where
  "day_sheet =
     \<lparr>df_columns = [''inc_number'', ''inc_sys_created_on'', ''inc_resolved_at''],
      df_rows =
        [source_ticket ''INC001'' (TsC (Timestamp 2024 1 1 0 0 0)) (TsC (Timestamp 2024 1 2 0 0 0)),
         source_ticket ''INC002'' (TsC (Timestamp 2024 1 1 0 0 0)) NullC]\<rparr>"

definition second_sheet :: dataframe where
  "second_sheet =
     \<lparr>df_columns = [''inc_number'', ''inc_sys_created_on'', ''inc_resolved_at''],
      df_rows =
        [source_ticket ''INC003'' (TsC (Timestamp 2024 1 1 0 0 0))
           (TsC (Timestamp 2024 1 1 0 0 1))]\<rparr>"

definition text_sheet :: dataframe where
  "text_sheet =
     \<lparr>df_columns = [''inc_number'', ''inc_sys_created_on'', ''inc_resolved_at''],
      df_rows =
        [source_ticket ''INC004'' (StrC ''2024-01-01T00:00:00'')
           (StrC ''2024-01-02T00:00:00'')]\<rparr>"

definition edge_sheet :: dataframe where
  "edge_sheet =
     \<lparr>df_columns = [''inc_number'', ''inc_sys_created_on'', ''inc_resolved_at''],
      df_rows = [source_ticket ''INC005'' (TsC (2 ^ 63 - 1)) (TsC (- 1))]\<rparr>"

definition excel_world :: "dataframe \<Rightarrow> world" where
  "excel_world df = (quiet_world None)\<lparr>excel_file := Inr df\<rparr>"

text \<open>
  The world after the extractor and the schema initializer have run on the sheet of the
  duration example: the staging file holds what reads back from the frame written, the
  relation is the empty one with the declared schema.
\<close>

definition initialized_world :: world where
  "initialized_world =
     snd (create_staging_table (snd (extract_itsm_data pandas2 (excel_world day_sheet))))"

section \<open>Facts about the quality checker\<close>

lemma sql_or_True: "sql_or a b = Some True \<longleftrightarrow> a = Some True \<or> b = Some True"
  by (cases "(a, b)" rule: sql_or.cases) auto

lemma outlier_query_logging [simp]: "outlier_query (logging m w) = outlier_query w"
  by (simp add: outlier_query_def logging_def split: option.splits)

lemma duplicate_query_logging [simp]: "duplicate_query (logging m w) = duplicate_query w"
  by (simp add: duplicate_query_def logging_def split: option.splits)

lemma logs_logging [simp]: "logs (logging m w) = logs w @ [m]"
  by (simp add: logging_def)

lemma checks_logs:
  assumes "duplicate_query w = Inr d" and "outlier_query w = Inr n"
  shows "run_data_quality_checks w =
           (Inr (), w\<lparr>logs := logs w @ (if 0 < d then [Warning_duplicates d] else [])
                          @ (if 0 < n then [Warning_outliers n] else [])
                          @ [Info_checks_completed]\<rparr>)"
  using assms
  by (simp add: run_data_quality_checks_def run_data_quality_checks_body_def
      log_and_reraise_def Let_def) (simp add: logging_def)

lemma group_count_card:
  "length (filter (\<lambda>(k, n). 1 < n) (group_count c rs)) =
     card {k. 1 < length (filter (\<lambda>r. cell_at r c = k) rs)}"
proof -
  let ?ks = "remdups (map (\<lambda>r. cell_at r c) rs)"
  let ?P = "\<lambda>k. 1 < length (filter (\<lambda>r. cell_at r c = k) rs)"
  have "length (filter (\<lambda>(k, n). 1 < n) (group_count c rs)) = length (filter ?P ?ks)"
    by (simp add: group_count_def filter_map comp_def)
  also have "\<dots> = card (set (filter ?P ?ks))"
    by (rule distinct_card [symmetric]) simp
  also have "set (filter ?P ?ks) = {k. ?P k}"
  proof -
    have "?P k \<Longrightarrow> k \<in> set (map (\<lambda>r. cell_at r c) rs)" for k
    proof -
      assume "?P k"
      then have "filter (\<lambda>r. cell_at r c = k) rs \<noteq> []" by auto
      then obtain r where "r \<in> set rs" "cell_at r c = k"
        by (auto simp: filter_empty_conv)
      then show ?thesis by auto
    qed
    then show ?thesis by auto
  qed
  finally show ?thesis .
qed


lemma outlier_condition_flagged:
  "outlier_condition r = Some True \<longleftrightarrow> flagged_duration (cell_at r ''resolution_time_hours'')"
  by (cases "cell_at r ''resolution_time_hours''")
     (auto simp: outlier_condition_def sql_gt_def sql_lt_def sql_or_True)

lemma checks_new_logs_ok:
  assumes "duplicate_query w = Inr d" and "outlier_query w = Inr n"
  shows "new_logs w (snd (run_data_quality_checks w)) =
           (if 0 < d then [Warning_duplicates d] else [])
           @ (if 0 < n then [Warning_outliers n] else []) @ [Info_checks_completed]"
  by (simp add: checks_logs [OF assms] new_logs_def)

lemma checks_new_logs_outlier_fails:
  assumes "duplicate_query w = Inr d" and "outlier_query w = Inl e"
  shows "run_data_quality_checks w =
           (Inl e, w\<lparr>logs := logs w @ (if 0 < d then [Warning_duplicates d] else [])
                          @ [Error_checks e]\<rparr>)"
  using assms
  by (simp add: run_data_quality_checks_def run_data_quality_checks_body_def
      log_and_reraise_def Let_def) (simp add: logging_def)

lemma checks_duplicate_fails:
  assumes "duplicate_query w = Inl e"
  shows "run_data_quality_checks w = (Inl e, w\<lparr>logs := logs w @ [Error_checks e]\<rparr>)"
  using assms
  by (simp add: run_data_quality_checks_def run_data_quality_checks_body_def
      log_and_reraise_def Let_def) (simp add: logging_def)

lemma outlier_query_Inr:
  "outlier_query w = Inr n \<Longrightarrow> \<exists>t. itsm_raw_tickets w = Some t \<and> n = outlier_count (tbl_rows t)"
  by (auto simp: outlier_query_def split: option.splits if_splits)

lemma duplicate_query_Inr:
  "duplicate_query w = Inr d \<Longrightarrow>
     \<exists>t. itsm_raw_tickets w = Some t \<and> d = duplicate_count (tbl_rows t)"
  by (auto simp: duplicate_query_def split: option.splits if_splits)

text \<open>
  Claim C4. The outlier check counts exactly the rows of the relation whose
  \<^verbatim>\<open>resolution_time_hours\<close> is negative or exceeds 720 and flags no other row: the
  condition of the query, in SQL's three-valued logic, is true of a row exactly when its
  duration is flagged, and the count the query returns is the number of flagged rows.
  When both queries return, the run logs the outlier warning if and only if that count
  is positive, and the warning carries the count.
\<close>

theorem outlier_check_counts_flagged_rows:
  "(\<forall>r. outlier_condition r = Some True \<longleftrightarrow>
        flagged_duration (cell_at r ''resolution_time_hours'')) \<and>
   outlier_count rs =
     length (filter (\<lambda>r. flagged_duration (cell_at r ''resolution_time_hours'')) rs) \<and>
   (outlier_query w = Inr n \<longrightarrow>
      (\<exists>t. itsm_raw_tickets w = Some t \<and> n = outlier_count (tbl_rows t))) \<and>
   (duplicate_query w = Inr d \<longrightarrow> outlier_query w = Inr n \<longrightarrow>
      (Warning_outliers k \<in> set (new_logs w (snd (run_data_quality_checks w)))
         \<longleftrightarrow> k = n \<and> 0 < n))"
proof (intro conjI allI impI)
  show "outlier_count rs =
     length (filter (\<lambda>r. flagged_duration (cell_at r ''resolution_time_hours'')) rs)"
    by (simp add: outlier_count_def outlier_condition_flagged)
next
  assume "outlier_query w = Inr n"
  then show "\<exists>t. itsm_raw_tickets w = Some t \<and> n = outlier_count (tbl_rows t)"
    by (rule outlier_query_Inr)
next
  assume "duplicate_query w = Inr d" and "outlier_query w = Inr n"
  then show "Warning_outliers k \<in> set (new_logs w (snd (run_data_quality_checks w)))
         \<longleftrightarrow> k = n \<and> 0 < n"
    by (auto simp: checks_new_logs_ok)
qed (rule outlier_condition_flagged)

lemma two_hits_filter:
  assumes "i < j" and "j < length xs" and "P (xs ! i)" and "P (xs ! j)"
  shows "1 < length (filter P xs)"
proof -
  have split: "xs = take j xs @ xs ! j # drop (Suc j) xs"
    using assms(2) by (simp add: id_take_nth_drop)
  have "xs ! i \<in> set (take j xs)"
    using assms(1,2) by (auto simp: in_set_conv_nth intro!: exI [of _ i])
  with assms(3) have "filter P (take j xs) \<noteq> []"
    by (auto simp: filter_empty_conv)
  then have "0 < length (filter P (take j xs))" by simp
  moreover have "length (filter P xs) =
      length (filter P (take j xs)) + length (filter P (xs ! j # drop (Suc j) xs))"
    by (subst split) simp
  ultimately show ?thesis using assms(4) by simp
qed

lemma duplicate_count_card:
  "duplicate_count rs = card {k. 1 < length (filter (\<lambda>r. cell_at r ''inc_number'' = k) rs)}"
  unfolding duplicate_count_def by (rule group_count_card)

lemma duplicate_count_pos:
  assumes "1 < length (filter (\<lambda>r. cell_at r ''inc_number'' = k) rs)"
  shows "1 \<le> duplicate_count rs"
proof -
  let ?S = "{k. 1 < length (filter (\<lambda>r. cell_at r ''inc_number'' = k) rs)}"
  have "?S \<subseteq> insert NullC ((\<lambda>r. cell_at r ''inc_number'') ` set rs)"
  proof
    fix x assume "x \<in> ?S"
    then have "filter (\<lambda>r. cell_at r ''inc_number'' = x) rs \<noteq> []" by auto
    then show "x \<in> insert NullC ((\<lambda>r. cell_at r ''inc_number'') ` set rs)"
      by (auto simp: filter_empty_conv)
  qed
  then have "finite ?S" by (rule finite_subset) simp
  moreover have "k \<in> ?S" using assms by simp
  ultimately have "0 < card ?S" by (auto simp: card_gt_0_iff)
  then show ?thesis by (simp add: duplicate_count_card)
qed

text \<open>
  Claim C5. The duplicate check counts the incident numbers that more than one row
  carries, not the rows: its result is the number of distinct values of
  \<^verbatim>\<open>inc_number\<close> with more than one row. A relation with two rows of incident number
  INC001 gives a result of at least 1. When the query returns, the run logs the
  duplicate warning if and only if the count is positive, and the warning carries it.
\<close>

theorem duplicate_check_counts_groups:
  "duplicate_count rs = card {k. 1 < length (filter (\<lambda>r. cell_at r ''inc_number'' = k) rs)} \<and>
   (\<forall>i j. i < j \<and> j < length rs \<and> cell_at (rs ! i) ''inc_number'' = StrC ''INC001''
          \<and> cell_at (rs ! j) ''inc_number'' = StrC ''INC001'' \<longrightarrow> 1 \<le> duplicate_count rs) \<and>
   (duplicate_query w = Inr d \<longrightarrow>
      (\<exists>t. itsm_raw_tickets w = Some t \<and> d = duplicate_count (tbl_rows t)) \<and>
      (Warning_duplicates k \<in> set (new_logs w (snd (run_data_quality_checks w)))
         \<longleftrightarrow> k = d \<and> 0 < d))"
proof (intro conjI allI impI)
  show "duplicate_count rs =
      card {k. 1 < length (filter (\<lambda>r. cell_at r ''inc_number'' = k) rs)}"
    by (rule duplicate_count_card)
next
  fix i j
  assume "i < j \<and> j < length rs \<and> cell_at (rs ! i) ''inc_number'' = StrC ''INC001''
          \<and> cell_at (rs ! j) ''inc_number'' = StrC ''INC001''"
  then have "1 < length (filter (\<lambda>r. cell_at r ''inc_number'' = StrC ''INC001'') rs)"
    by (intro two_hits_filter [of i j]) auto
  then show "1 \<le> duplicate_count rs" by (rule duplicate_count_pos)
next
  assume "duplicate_query w = Inr d"
  then show "\<exists>t. itsm_raw_tickets w = Some t \<and> d = duplicate_count (tbl_rows t)"
    by (rule duplicate_query_Inr)
next
  assume d: "duplicate_query w = Inr d"
  show "Warning_duplicates k \<in> set (new_logs w (snd (run_data_quality_checks w)))
         \<longleftrightarrow> k = d \<and> 0 < d"
  proof (cases "outlier_query w")
    case (Inl e)
    show ?thesis
      by (auto simp: checks_new_logs_outlier_fails [OF d Inl] new_logs_def)
  next
    case (Inr n)
    show ?thesis
      by (auto simp: checks_new_logs_ok [OF d Inr])
  qed
qed


lemma cell_at_ticket [simp]:
  "cell_at (ticket n h) ''inc_number'' = StrC n"
  "cell_at (ticket n h) ''resolution_time_hours'' = h"
  by (simp_all add: cell_at_def ticket_def)

lemma four_tickets_outliers: "outlier_query (quiet_world (Some (loaded_table four_tickets))) = Inr 2"
  by (simp add: outlier_query_def quiet_world_def loaded_table_def four_tickets_def
      is_numeric_def outlier_count_def outlier_condition_flagged)

lemma four_tickets_duplicates:
  "duplicate_query (quiet_world (Some (loaded_table four_tickets))) = Inr 1"
  by (simp add: duplicate_query_def quiet_world_def loaded_table_def four_tickets_def
      duplicate_count_def group_count_def)

theorem outlier_check_counts_flagged_rows_witness:
  "outlier_query (quiet_world (Some (loaded_table four_tickets))) = Inr 2 \<and>
   duplicate_query (quiet_world (Some (loaded_table four_tickets))) = Inr 1 \<and>
   Warning_outliers 2 \<in>
     set (new_logs (quiet_world (Some (loaded_table four_tickets)))
            (snd (run_data_quality_checks (quiet_world (Some (loaded_table four_tickets))))))"
  using outlier_check_counts_flagged_rows
          [of four_tickets "quiet_world (Some (loaded_table four_tickets))" 2 1 2]
        four_tickets_outliers four_tickets_duplicates
  by simp

theorem duplicate_check_counts_groups_witness:
  "duplicate_query (quiet_world (Some (loaded_table four_tickets))) = Inr 1 \<and>
   1 \<le> duplicate_count four_tickets \<and>
   Warning_duplicates 1 \<in>
     set (new_logs (quiet_world (Some (loaded_table four_tickets)))
            (snd (run_data_quality_checks (quiet_world (Some (loaded_table four_tickets))))))"
proof -
  have two: "(0::nat) < 1 \<and> (1::nat) < length four_tickets
      \<and> cell_at (four_tickets ! 0) ''inc_number'' = StrC ''INC001''
      \<and> cell_at (four_tickets ! 1) ''inc_number'' = StrC ''INC001''"
    by (simp add: four_tickets_def)
  show ?thesis
    using duplicate_check_counts_groups
            [of four_tickets "quiet_world (Some (loaded_table four_tickets))" 1 1]
          four_tickets_duplicates two
    by blast
qed


text \<open>
  Claim C3. The quality checker raises \<open>e\<close> if and only if one of its two queries
  raises \<open>e\<close> (the outlier query is reached only when the duplicate query returned); the
  exception it raises is the one its body raised, logged as an error after everything the
  body had logged. When both queries return, whatever counts they return, the checker
  returns normally, and what it has logged is a warning for each positive count and its
  closing entry; in particular it returns normally for every content of a relation that
  has the two columns, with a numeric duration, on a server that refuses neither query.
\<close>

theorem quality_checker_raises_only_on_query_errors:
  "(fst (run_data_quality_checks w) = Inl e \<longleftrightarrow>
      duplicate_query w = Inl e \<or> ((\<exists>d. duplicate_query w = Inr d) \<and> outlier_query w = Inl e)) \<and>
   (fst (run_data_quality_checks w) = Inl e \<longrightarrow>
      fst (run_data_quality_checks_body w) = Inl e \<and>
      logs (snd (run_data_quality_checks w)) =
        logs (snd (run_data_quality_checks_body w)) @ [Error_checks e]) \<and>
   (duplicate_query w = Inr d \<and> outlier_query w = Inr n \<longrightarrow>
      fst (run_data_quality_checks w) = Inr () \<and>
      new_logs w (snd (run_data_quality_checks w)) =
        (if 0 < d then [Warning_duplicates d] else []) @
        (if 0 < n then [Warning_outliers n] else []) @ [Info_checks_completed] \<and>
      level_of (Warning_duplicates d) = WARNING \<and> level_of (Warning_outliers n) = WARNING) \<and>
   (db_fault w DuplicateQuery = None \<and> db_fault w OutlierQuery = None \<and>
    itsm_raw_tickets w = Some t \<and> map_of (tbl_columns t) ''inc_number'' = Some ty1 \<and>
    map_of (tbl_columns t) ''resolution_time_hours'' = Some ty2 \<and> is_numeric ty2 \<longrightarrow>
      fst (run_data_quality_checks w) = Inr ())"
proof -
  have raises: "fst (run_data_quality_checks w) = Inl e \<longleftrightarrow>
      duplicate_query w = Inl e \<or> ((\<exists>d. duplicate_query w = Inr d) \<and> outlier_query w = Inl e)"
  proof (cases "duplicate_query w")
    case (Inl e')
    then show ?thesis by (simp add: checks_duplicate_fails)
  next
    case d: (Inr d')
    show ?thesis
    proof (cases "outlier_query w")
      case (Inl e')
      with d show ?thesis by (simp add: checks_new_logs_outlier_fails)
    next
      case (Inr n')
      with d show ?thesis by (simp add: checks_logs)
    qed
  qed
  have logged: "fst (run_data_quality_checks w) = Inl e \<longrightarrow>
      fst (run_data_quality_checks_body w) = Inl e \<and>
      logs (snd (run_data_quality_checks w)) =
        logs (snd (run_data_quality_checks_body w)) @ [Error_checks e]"
    by (cases "run_data_quality_checks_body w")
       (auto simp: run_data_quality_checks_def log_and_reraise_def split: sum.splits)
  have findings: "duplicate_query w = Inr d \<and> outlier_query w = Inr n \<longrightarrow>
      fst (run_data_quality_checks w) = Inr () \<and>
      new_logs w (snd (run_data_quality_checks w)) =
        (if 0 < d then [Warning_duplicates d] else []) @
        (if 0 < n then [Warning_outliers n] else []) @ [Info_checks_completed] \<and>
      level_of (Warning_duplicates d) = WARNING \<and> level_of (Warning_outliers n) = WARNING"
  proof
    assume "duplicate_query w = Inr d \<and> outlier_query w = Inr n"
    then have d: "duplicate_query w = Inr d" and n: "outlier_query w = Inr n" by simp_all
    show "fst (run_data_quality_checks w) = Inr () \<and>
      new_logs w (snd (run_data_quality_checks w)) =
        (if 0 < d then [Warning_duplicates d] else []) @
        (if 0 < n then [Warning_outliers n] else []) @ [Info_checks_completed] \<and>
      level_of (Warning_duplicates d) = WARNING \<and> level_of (Warning_outliers n) = WARNING"
      by (intro conjI checks_new_logs_ok [OF d n]) (simp_all add: checks_logs [OF d n])
  qed
  have any_rows: "db_fault w DuplicateQuery = None \<and> db_fault w OutlierQuery = None \<and>
    itsm_raw_tickets w = Some t \<and> map_of (tbl_columns t) ''inc_number'' = Some ty1 \<and>
    map_of (tbl_columns t) ''resolution_time_hours'' = Some ty2 \<and> is_numeric ty2 \<longrightarrow>
      fst (run_data_quality_checks w) = Inr ()"
  proof
    assume a: "db_fault w DuplicateQuery = None \<and> db_fault w OutlierQuery = None \<and>
      itsm_raw_tickets w = Some t \<and> map_of (tbl_columns t) ''inc_number'' = Some ty1 \<and>
      map_of (tbl_columns t) ''resolution_time_hours'' = Some ty2 \<and> is_numeric ty2"
    then have "duplicate_query w = Inr (duplicate_count (tbl_rows t))"
      and "outlier_query w = Inr (outlier_count (tbl_rows t))"
      by (simp_all add: duplicate_query_def outlier_query_def)
    then show "fst (run_data_quality_checks w) = Inr ()"
      by (simp add: checks_logs)
  qed
  show ?thesis by (intro conjI raises logged findings any_rows)
qed

theorem quality_checker_raises_only_on_query_errors_witness:
  "db_fault (quiet_world (Some (loaded_table four_tickets))) DuplicateQuery = None \<and>
   db_fault (quiet_world (Some (loaded_table four_tickets))) OutlierQuery = None \<and>
   itsm_raw_tickets (quiet_world (Some (loaded_table four_tickets))) =
     Some (loaded_table four_tickets) \<and>
   map_of (tbl_columns (loaded_table four_tickets)) ''inc_number'' = Some TEXT \<and>
   map_of (tbl_columns (loaded_table four_tickets)) ''resolution_time_hours'' = Some FLOAT53 \<and>
   is_numeric FLOAT53 \<and>
   duplicate_query (quiet_world (Some (loaded_table four_tickets))) = Inr 1 \<and>
   outlier_query (quiet_world (Some (loaded_table four_tickets))) = Inr 2 \<and>
   fst (run_data_quality_checks (quiet_world (Some (loaded_table four_tickets)))) = Inr () \<and>
   duplicate_query (quiet_world None) = Inl (UndefinedTable ''itsm_raw_tickets'') \<and>
   fst (run_data_quality_checks (quiet_world None)) = Inl (UndefinedTable ''itsm_raw_tickets'') \<and>
   logs (snd (run_data_quality_checks (quiet_world None))) =
     logs (snd (run_data_quality_checks_body (quiet_world None))) @
     [Error_checks (UndefinedTable ''itsm_raw_tickets'')]"
proof -
  let ?w = "quiet_world (Some (loaded_table four_tickets))"
  let ?e = "UndefinedTable ''itsm_raw_tickets''"
  have server: "db_fault ?w DuplicateQuery = None \<and> db_fault ?w OutlierQuery = None \<and>
      itsm_raw_tickets ?w = Some (loaded_table four_tickets) \<and>
      map_of (tbl_columns (loaded_table four_tickets)) ''inc_number'' = Some TEXT \<and>
      map_of (tbl_columns (loaded_table four_tickets)) ''resolution_time_hours'' = Some FLOAT53 \<and>
      is_numeric FLOAT53"
    by (simp add: quiet_world_def loaded_table_def is_numeric_def)
  have missing: "duplicate_query (quiet_world None) = Inl ?e"
    by (simp add: duplicate_query_def quiet_world_def)
  note found = quality_checker_raises_only_on_query_errors
      [of ?w _ 1 2 "loaded_table four_tickets" TEXT FLOAT53]
  note failed = quality_checker_raises_only_on_query_errors [of "quiet_world None" ?e]
  from found [THEN conjunct2, THEN conjunct2, THEN conjunct2, THEN mp, OF server]
  have returns: "fst (run_data_quality_checks ?w) = Inr ()" .
  have raised: "fst (run_data_quality_checks (quiet_world None)) = Inl ?e"
    by (rule iffD2 [OF failed [THEN conjunct1]]) (simp add: missing)
  from failed [THEN conjunct2, THEN conjunct1, THEN mp, OF raised]
  have logged: "logs (snd (run_data_quality_checks (quiet_world None))) =
     logs (snd (run_data_quality_checks_body (quiet_world None))) @ [Error_checks ?e]"
    by (rule conjunct2)
  from server show ?thesis
    by (intro conjI four_tickets_duplicates four_tickets_outliers returns missing raised logged)
       simp_all
qed

text \<open>
  Claim C10 as stated fails: a row with a NULL duration does count toward the duplicate
  warning. On a relation of two rows with incident number INC001 and NULL durations the
  run logs the duplicate warning with count 1; with one of the two rows alone it logs
  none.
\<close>

theorem null_duration_rows_count_as_duplicates:
  "cell_at (ticket ''INC001'' NullC) ''resolution_time_hours'' = NullC \<and>
   new_logs (quiet_world (Some (loaded_table [ticket ''INC001'' NullC, ticket ''INC001'' NullC])))
     (snd (run_data_quality_checks
        (quiet_world (Some (loaded_table [ticket ''INC001'' NullC, ticket ''INC001'' NullC])))))
     = [Warning_duplicates 1, Info_checks_completed] \<and>
   new_logs (quiet_world (Some (loaded_table [ticket ''INC001'' NullC])))
     (snd (run_data_quality_checks
        (quiet_world (Some (loaded_table [ticket ''INC001'' NullC])))))
     = [Info_checks_completed]"
proof -
  let ?w2 = "quiet_world (Some (loaded_table [ticket ''INC001'' NullC, ticket ''INC001'' NullC]))"
  let ?w1 = "quiet_world (Some (loaded_table [ticket ''INC001'' NullC]))"
  have d2: "duplicate_query ?w2 = Inr 1" and d1: "duplicate_query ?w1 = Inr 0"
    by (simp_all add: duplicate_query_def quiet_world_def loaded_table_def
        duplicate_count_def group_count_def)
  have o2: "outlier_query ?w2 = Inr 0" and o1: "outlier_query ?w1 = Inr 0"
    by (simp_all add: outlier_query_def quiet_world_def loaded_table_def
        is_numeric_def outlier_count_def outlier_condition_flagged)
  show ?thesis
    by (simp add: checks_new_logs_ok [OF d2 o2] checks_new_logs_ok [OF d1 o1])
qed

lemma cell_at_upd_other: "c \<noteq> c' \<Longrightarrow> cell_at (r(c' \<mapsto> v)) c = cell_at r c"
  by (simp add: cell_at_def)

section \<open>Facts about the schema initializer\<close>

text \<open>
  Claim C6. On a server that does not refuse the statement, running the schema initializer
  when the relation exists returns normally and leaves the world as it was: the same
  columns, the same rows. Run twice in a row from any state, it returns normally the first
  time and the second run changes nothing.
\<close>

theorem schema_initializer_is_noop_on_existing_table:
  "(db_fault w CreateTable = None \<and> itsm_raw_tickets w = Some t \<longrightarrow>
      create_staging_table w = (Inr (), w)) \<and>
   (db_fault w CreateTable = None \<longrightarrow>
      fst (create_staging_table w) = Inr () \<and>
      create_staging_table (snd (create_staging_table w)) = (Inr (), snd (create_staging_table w)))"
  by (auto simp: create_staging_table_def split: option.splits)

theorem schema_initializer_is_noop_on_existing_table_witness:
  "db_fault (quiet_world (Some (loaded_table four_tickets))) CreateTable = None \<and>
   itsm_raw_tickets (quiet_world (Some (loaded_table four_tickets))) =
     Some (loaded_table four_tickets) \<and>
   create_staging_table (quiet_world (Some (loaded_table four_tickets))) =
     (Inr (), quiet_world (Some (loaded_table four_tickets))) \<and>
   db_fault (quiet_world None) CreateTable = None \<and>
   fst (create_staging_table (quiet_world None)) = Inr () \<and>
   create_staging_table (snd (create_staging_table (quiet_world None))) =
     (Inr (), snd (create_staging_table (quiet_world None)))"
proof -
  let ?w = "quiet_world (Some (loaded_table four_tickets))"
  have a: "db_fault ?w CreateTable = None \<and> itsm_raw_tickets ?w = Some (loaded_table four_tickets)"
    and b: "db_fault (quiet_world None) CreateTable = None"
    by (simp_all add: quiet_world_def)
  from schema_initializer_is_noop_on_existing_table [of ?w "loaded_table four_tickets"] a
  have c: "create_staging_table ?w = (Inr (), ?w)" by blast
  from schema_initializer_is_noop_on_existing_table [of "quiet_world None"] b
  have d: "fst (create_staging_table (quiet_world None)) = Inr () \<and>
      create_staging_table (snd (create_staging_table (quiet_world None))) =
        (Inr (), snd (create_staging_table (quiet_world None)))"
    by blast
  from a b c d show ?thesis by blast
qed


section \<open>Facts about the loader\<close>

lemma load_to_postgres_returns:
  assumes "staging_csv w = Inr df" and "db_fault w GetEngine = None" and "db_fault w ToSql = None"
  shows "load_to_postgres w =
           (Inr (), w\<lparr>itsm_raw_tickets := Some (table_of_frame df),
                       logs := logs w @ [Info_loaded (length (df_rows df))]\<rparr>)"
  using assms
  by (simp add: load_to_postgres_def load_to_postgres_body_def to_sql_replace_def
      log_and_reraise_def logging_def)

lemma load_to_postgres_body_raises:
  "fst (load_to_postgres_body w) = Inl e \<longleftrightarrow>
     staging_csv w = Inl e \<or>
     (\<exists>df. staging_csv w = Inr df) \<and>
       (db_fault w GetEngine = Some e \<or> db_fault w GetEngine = None \<and> db_fault w ToSql = Some e)"
  by (auto simp: load_to_postgres_body_def to_sql_replace_def split: sum.splits option.splits)

lemma load_to_postgres_Inr:
  assumes "fst (load_to_postgres w) = Inr ()"
  shows "\<exists>df. staging_csv w = Inr df \<and> db_fault w GetEngine = None \<and> db_fault w ToSql = None"
  using assms
  by (auto simp: load_to_postgres_def load_to_postgres_body_def to_sql_replace_def
      log_and_reraise_def split: sum.splits option.splits)

lemma load_to_postgres_raises:
  assumes "fst (load_to_postgres w) = Inl e"
  shows "snd (load_to_postgres w) = w\<lparr>logs := logs w @ [Error_loading e]\<rparr>"
  using assms
  by (auto simp: load_to_postgres_def load_to_postgres_body_def to_sql_replace_def
      log_and_reraise_def logging_def split: sum.splits option.splits)

text \<open>
  Claim C2. A successful load leaves in the relation exactly the table made from the
  frame of the staging file, with exactly the frame's rows, whatever the relation held
  before: its contents are replaced, not appended to or merged. Running the loader a
  second time on the same file leaves the relation as the first run left it, so the
  number of rows after two runs is the number after one, the number of rows of the file.
\<close>

theorem loader_replaces_and_is_idempotent:
  "itsm_raw_tickets (snd (load_to_postgres (snd (load_to_postgres w)))) =
     itsm_raw_tickets (snd (load_to_postgres w)) \<and>
   (fst (load_to_postgres w) = Inr () \<longrightarrow>
      (\<exists>df. staging_csv w = Inr df \<and>
            itsm_raw_tickets (snd (load_to_postgres w)) = Some (table_of_frame df) \<and>
            tbl_rows (table_of_frame df) = df_rows df \<and>
            fst (load_to_postgres (snd (load_to_postgres w))) = Inr () \<and>
            map_option (\<lambda>t. length (tbl_rows t))
              (itsm_raw_tickets (snd (load_to_postgres (snd (load_to_postgres w))))) =
              Some (length (df_rows df))))"
proof (cases "fst (load_to_postgres w)")
  case (Inl e)
  then have "snd (load_to_postgres w) = w\<lparr>logs := logs w @ [Error_loading e]\<rparr>"
    by (rule load_to_postgres_raises)
  moreover have "fst (load_to_postgres (w\<lparr>logs := logs w @ [Error_loading e]\<rparr>)) = Inl e"
    using Inl
    by (auto simp: load_to_postgres_def load_to_postgres_body_def to_sql_replace_def
        log_and_reraise_def split: sum.splits option.splits)
  ultimately show ?thesis
    using Inl by (simp add: load_to_postgres_raises)
next
  case (Inr u)
  then obtain df where df: "staging_csv w = Inr df" "db_fault w GetEngine = None"
      "db_fault w ToSql = None"
    using load_to_postgres_Inr [of w] by auto
  let ?w1 = "w\<lparr>itsm_raw_tickets := Some (table_of_frame df),
               logs := logs w @ [Info_loaded (length (df_rows df))]\<rparr>"
  have one: "load_to_postgres w = (Inr (), ?w1)"
    using df by (rule load_to_postgres_returns)
  have two: "load_to_postgres ?w1 =
      (Inr (), ?w1\<lparr>itsm_raw_tickets := Some (table_of_frame df),
                    logs := logs ?w1 @ [Info_loaded (length (df_rows df))]\<rparr>)"
    using df by (intro load_to_postgres_returns) simp_all
  have rows: "tbl_rows (table_of_frame df) = df_rows df"
    by (simp add: table_of_frame_def)
  show ?thesis
    using df by (simp add: one two rows)
qed

lemma sqlalchemy_type_not_numeric: "sqlalchemy_type cs \<noteq> NUMERIC"
  by (simp add: sqlalchemy_type_def Let_def)

lemma sqlalchemy_type_timestamp:
  assumes "sqlalchemy_type cs = TIMESTAMP"
  shows "\<exists>c \<in> set cs. is_timestamp c"
proof -
  let ?vs = "filter (\<lambda>c. c \<noteq> NullC) cs"
  from assms have "?vs \<noteq> []" and "list_all is_timestamp ?vs"
    by (auto simp: sqlalchemy_type_def Let_def split: if_splits)
  then obtain v where "v \<in> set ?vs" and "is_timestamp v"
    by (cases ?vs) (auto simp: list_all_iff)
  then show ?thesis by auto
qed

lemma table_of_frame_not_declared: "tbl_columns (table_of_frame df) \<noteq> staging_schema"
proof
  assume "tbl_columns (table_of_frame df) = staging_schema"
  moreover have "(''resolution_time_hours'', NUMERIC) \<in> set staging_schema"
    by (simp add: staging_schema_def)
  ultimately have "(''resolution_time_hours'', NUMERIC) \<in> set (tbl_columns (table_of_frame df))"
    by simp
  then obtain cs where "NUMERIC = sqlalchemy_type cs"
    by (auto simp: table_of_frame_def)
  then show False
    using sqlalchemy_type_not_numeric [of cs] by simp
qed

text \<open>
  Claim C9. After a successful load the relation is the one the load created. Its columns
  are the frame's, each with the SQL type pandas infers from the values the CSV gave that
  column. None of them is \<open>NUMERIC\<close>, and a column is \<open>TIMESTAMP\<close> only when it holds
  timestamp values, which a frame read from CSV does not: so the schema is never the one
  the schema initializer declares. Its rows are the frame's rows; and it is the same
  relation whatever the earlier state of the relation was, so no row and no column of an
  earlier state remains.
\<close>

theorem loaded_table_has_inferred_schema:
  "fst (load_to_postgres w) = Inr () \<longrightarrow>
     (\<exists>df t. staging_csv w = Inr df \<and>
        itsm_raw_tickets (snd (load_to_postgres w)) = Some t \<and>
        tbl_columns t =
          map (\<lambda>c. (c, sqlalchemy_type (map (\<lambda>r. cell_at r c) (df_rows df)))) (df_columns df) \<and>
        (\<forall>(c, ty) \<in> set (tbl_columns t). ty \<noteq> NUMERIC) \<and>
        (\<forall>(c, ty) \<in> set (tbl_columns t).
           (\<forall>r \<in> set (df_rows df). \<not> is_timestamp (cell_at r c)) \<longrightarrow> ty \<noteq> TIMESTAMP) \<and>
        tbl_columns t \<noteq> staging_schema \<and>
        tbl_rows t = df_rows df \<and>
        (\<forall>old. itsm_raw_tickets (snd (load_to_postgres (w\<lparr>itsm_raw_tickets := old\<rparr>))) =
                 Some t))"
proof
  assume "fst (load_to_postgres w) = Inr ()"
  then obtain df where df: "staging_csv w = Inr df" "db_fault w GetEngine = None"
      "db_fault w ToSql = None"
    using load_to_postgres_Inr [of w] by auto
  let ?t = "table_of_frame df"
  have one: "itsm_raw_tickets (snd (load_to_postgres w)) = Some ?t"
    by (simp add: load_to_postgres_returns [OF df])
  have cols: "tbl_columns ?t =
      map (\<lambda>c. (c, sqlalchemy_type (map (\<lambda>r. cell_at r c) (df_rows df)))) (df_columns df)"
    by (simp add: table_of_frame_def)
  have numeric: "\<forall>(c, ty) \<in> set (tbl_columns ?t). ty \<noteq> NUMERIC"
    by (auto simp: cols sqlalchemy_type_not_numeric)
  have timestamp: "\<forall>(c, ty) \<in> set (tbl_columns ?t).
      (\<forall>r \<in> set (df_rows df). \<not> is_timestamp (cell_at r c)) \<longrightarrow> ty \<noteq> TIMESTAMP"
  proof (clarify)
    fix c
    assume none: "\<forall>r \<in> set (df_rows df). \<not> is_timestamp (cell_at r c)"
      and "(c, TIMESTAMP) \<in> set (tbl_columns ?t)"
    then have "sqlalchemy_type (map (\<lambda>r. cell_at r c) (df_rows df)) = TIMESTAMP"
      by (auto simp: cols)
    from sqlalchemy_type_timestamp [OF this] none show False by auto
  qed
  have rows: "tbl_rows ?t = df_rows df"
    by (simp add: table_of_frame_def)
  have any: "\<forall>old. itsm_raw_tickets (snd (load_to_postgres (w\<lparr>itsm_raw_tickets := old\<rparr>))) =
      Some ?t"
  proof
    fix old
    show "itsm_raw_tickets (snd (load_to_postgres (w\<lparr>itsm_raw_tickets := old\<rparr>))) = Some ?t"
      using df by (subst load_to_postgres_returns [of _ df]) simp_all
  qed
  show "\<exists>df t. staging_csv w = Inr df \<and>
        itsm_raw_tickets (snd (load_to_postgres w)) = Some t \<and>
        tbl_columns t =
          map (\<lambda>c. (c, sqlalchemy_type (map (\<lambda>r. cell_at r c) (df_rows df)))) (df_columns df) \<and>
        (\<forall>(c, ty) \<in> set (tbl_columns t). ty \<noteq> NUMERIC) \<and>
        (\<forall>(c, ty) \<in> set (tbl_columns t).
           (\<forall>r \<in> set (df_rows df). \<not> is_timestamp (cell_at r c)) \<longrightarrow> ty \<noteq> TIMESTAMP) \<and>
        tbl_columns t \<noteq> staging_schema \<and>
        tbl_rows t = df_rows df \<and>
        (\<forall>old. itsm_raw_tickets (snd (load_to_postgres (w\<lparr>itsm_raw_tickets := old\<rparr>))) =
                 Some t)"
    by (intro exI [of _ df] exI [of _ ?t] conjI df(1) one cols numeric timestamp
        table_of_frame_not_declared rows any)
qed

lemma staged_world_loads:
  "load_to_postgres staged_world =
     (Inr (), staged_world\<lparr>itsm_raw_tickets := Some (table_of_frame staged_frame),
                       logs := logs staged_world @ [Info_loaded (length (df_rows staged_frame))]\<rparr>)"
  by (rule load_to_postgres_returns) (simp_all add: staged_world_def quiet_world_def)

theorem loader_replaces_and_is_idempotent_witness:
  "fst (load_to_postgres staged_world) = Inr () \<and>
   map_option (\<lambda>t. length (tbl_rows t))
     (itsm_raw_tickets
        (snd (load_to_postgres (snd (load_to_postgres staged_world))))) =
     Some 4"
  using loader_replaces_and_is_idempotent [of staged_world]
  by (simp add: staged_world_loads) (simp add: staged_world_def staged_frame_def four_tickets_def)

lemma staged_frame_has_no_timestamp:
  "\<forall>r \<in> set (df_rows staged_frame). \<not> is_timestamp (cell_at r c)"
  by (simp add: staged_frame_def four_tickets_def ticket_def cell_at_def is_timestamp_def)

lemma staged_frame_columns:
  "tbl_columns (table_of_frame staged_frame) =
     [(''inc_number'', TEXT), (''resolution_time_hours'', FLOAT53)]"
  by (simp add: table_of_frame_def staged_frame_def four_tickets_def sqlalchemy_type_def
      is_bool_def is_int_def is_number_def is_timestamp_def)

theorem loaded_table_has_inferred_schema_witness:
  "fst (load_to_postgres staged_world) = Inr () \<and>
   filter is_timestamp (map (\<lambda>r. cell_at r ''inc_number'') (df_rows staged_frame)) = [] \<and>
   filter is_timestamp (map (\<lambda>r. cell_at r ''resolution_time_hours'') (df_rows staged_frame))
     = [] \<and>
   map_option tbl_columns (itsm_raw_tickets staged_world) = Some staging_schema \<and>
   map_option tbl_columns (itsm_raw_tickets (snd (load_to_postgres staged_world))) =
     Some [(''inc_number'', TEXT), (''resolution_time_hours'', FLOAT53)] \<and>
   sqlalchemy_type [BoolC True, NullC, BoolC False] = BOOLEAN \<and>
   sqlalchemy_type [NullC, NullC] = FLOAT53 \<and>
   sqlalchemy_type [IntC 1, IntC 2] = BIGINT \<and>
   sqlalchemy_type [IntC 1, NullC] = FLOAT53 \<and>
   sqlalchemy_type [StrC ''P1'', NullC, IntC 2] = TEXT \<and>
   sqlalchemy_type [TsTextC (Timestamp 2024 1 1 0 0 0), NullC] = TEXT"
proof -
  have ok: "fst (load_to_postgres staged_world) = Inr ()"
    by (simp add: staged_world_loads)
  from loaded_table_has_inferred_schema [of staged_world, THEN mp, OF ok]
  obtain df t where df: "staging_csv staged_world = Inr df"
    and t: "itsm_raw_tickets (snd (load_to_postgres staged_world)) = Some t"
    and cols: "tbl_columns t =
      map (\<lambda>c. (c, sqlalchemy_type (map (\<lambda>r. cell_at r c) (df_rows df)))) (df_columns df)"
    by (elim exE conjE)
  from df have "df = staged_frame" by (simp add: staged_world_def)
  with cols have "tbl_columns t = [(''inc_number'', TEXT), (''resolution_time_hours'', FLOAT53)]"
    using staged_frame_columns by (simp add: table_of_frame_def)
  with t have after: "map_option tbl_columns (itsm_raw_tickets (snd (load_to_postgres staged_world))) =
     Some [(''inc_number'', TEXT), (''resolution_time_hours'', FLOAT53)]"
    by simp
  have before: "map_option tbl_columns (itsm_raw_tickets staged_world) = Some staging_schema"
    by (simp add: staged_world_def quiet_world_def)
  have types: "sqlalchemy_type [BoolC True, NullC, BoolC False] = BOOLEAN"
    "sqlalchemy_type [NullC, NullC] = FLOAT53"
    "sqlalchemy_type [IntC 1, IntC 2] = BIGINT"
    "sqlalchemy_type [IntC 1, NullC] = FLOAT53"
    "sqlalchemy_type [StrC ''P1'', NullC, IntC 2] = TEXT"
    "sqlalchemy_type [TsTextC (Timestamp 2024 1 1 0 0 0), NullC] = TEXT"
    by (simp_all add: sqlalchemy_type_def is_bool_def is_int_def is_number_def is_timestamp_def)
  have none: "filter is_timestamp (map (\<lambda>r. cell_at r c) (df_rows staged_frame)) = []" for c
    using staged_frame_has_no_timestamp [of c] by (simp add: filter_empty_conv)
  show ?thesis
    by (intro conjI ok none before after types)
qed

section \<open>Facts about the three task functions\<close>

lemma log_and_reraise_fst [simp]: "fst (log_and_reraise msg res) = fst res"
  by (cases res) (auto simp: log_and_reraise_def split: sum.splits)

lemma log_and_reraise_Inl:
  "fst res = Inl e \<Longrightarrow> snd (log_and_reraise msg res) = logging (msg e) (snd res)"
  by (cases res) (auto simp: log_and_reraise_def)

lemma log_and_reraise_Inr:
  "fst res = Inr u \<Longrightarrow> snd (log_and_reraise msg res) = snd res"
  by (cases res) (auto simp: log_and_reraise_def)

lemma extract_body_raises:
  "fst (extract_itsm_data_body pd w) = Inl e \<longleftrightarrow>
     excel_file w = Inl e \<or>
     (\<exists>df. excel_file w = Inr df \<and>
        (resolution_time_hours pd df = Inl e \<or>
         (\<exists>h. resolution_time_hours pd df = Inr h) \<and> csv_write_fault w = Some e))"
  by (auto simp: extract_itsm_data_body_def Let_def logging_def
      split: sum.splits option.splits)

lemma extract_body_returns:
  assumes "fst (extract_itsm_data_body pd w) = Inr ()"
  shows "\<exists>df h. excel_file w = Inr df \<and> resolution_time_hours pd df = Inr h \<and>
           csv_write_fault w = None \<and>
           snd (extract_itsm_data_body pd w) =
             w\<lparr>staging_csv := read_back pd (setitem df ''resolution_time_hours'' h),
                logs := logs w @
                  [Info_extracted (length (df_rows df)), Info_columns (df_columns df),
                   Info_missing (filter (\<lambda>(c, n). 0 < n) (isnull_sum df)), Info_saved]\<rparr>"
  using assms
  by (auto simp: extract_itsm_data_body_def Let_def logging_def
      split: sum.splits option.splits)

lemma extractor_fails_or_completes:
  "(fst (extract_itsm_data pd w) = Inl e \<longleftrightarrow>
      excel_file w = Inl e \<or>
      (\<exists>df. excel_file w = Inr df \<and>
         (resolution_time_hours pd df = Inl e \<or>
          (\<exists>h. resolution_time_hours pd df = Inr h) \<and> csv_write_fault w = Some e))) \<and>
   (fst (extract_itsm_data pd w) = Inl e \<longrightarrow>
      fst (extract_itsm_data_body pd w) = Inl e \<and>
      logs (snd (extract_itsm_data pd w)) =
        logs (snd (extract_itsm_data_body pd w)) @ [Error_extraction e]) \<and>
   (fst (extract_itsm_data pd w) = Inr () \<longrightarrow>
      (\<exists>df h. excel_file w = Inr df \<and> resolution_time_hours pd df = Inr h \<and>
         csv_write_fault w = None \<and>
         staging_csv (snd (extract_itsm_data pd w)) =
           read_back pd (setitem df ''resolution_time_hours'' h) \<and>
         new_logs w (snd (extract_itsm_data pd w)) =
           [Info_extracted (length (df_rows df)), Info_columns (df_columns df),
            Info_missing (filter (\<lambda>(c, n). 0 < n) (isnull_sum df)), Info_saved]))"
proof -
  have a: "fst (extract_itsm_data pd w) = Inl e \<longleftrightarrow>
      excel_file w = Inl e \<or>
      (\<exists>df. excel_file w = Inr df \<and>
         (resolution_time_hours pd df = Inl e \<or>
          (\<exists>h. resolution_time_hours pd df = Inr h) \<and> csv_write_fault w = Some e))"
    by (simp add: extract_itsm_data_def extract_body_raises)
  have b: "fst (extract_itsm_data pd w) = Inl e \<longrightarrow>
      fst (extract_itsm_data_body pd w) = Inl e \<and>
      logs (snd (extract_itsm_data pd w)) =
        logs (snd (extract_itsm_data_body pd w)) @ [Error_extraction e]"
    by (simp add: extract_itsm_data_def log_and_reraise_Inl)
  have c: "fst (extract_itsm_data pd w) = Inr () \<longrightarrow>
      (\<exists>df h. excel_file w = Inr df \<and> resolution_time_hours pd df = Inr h \<and>
         csv_write_fault w = None \<and>
         staging_csv (snd (extract_itsm_data pd w)) =
           read_back pd (setitem df ''resolution_time_hours'' h) \<and>
         new_logs w (snd (extract_itsm_data pd w)) =
           [Info_extracted (length (df_rows df)), Info_columns (df_columns df),
            Info_missing (filter (\<lambda>(c, n). 0 < n) (isnull_sum df)), Info_saved])"
  proof
    assume "fst (extract_itsm_data pd w) = Inr ()"
    then have r: "fst (extract_itsm_data_body pd w) = Inr ()"
      by (simp add: extract_itsm_data_def)
    then have s: "snd (extract_itsm_data pd w) = snd (extract_itsm_data_body pd w)"
      by (simp add: extract_itsm_data_def log_and_reraise_Inr)
    from extract_body_returns [OF r] show "\<exists>df h. excel_file w = Inr df \<and>
         resolution_time_hours pd df = Inr h \<and> csv_write_fault w = None \<and>
         staging_csv (snd (extract_itsm_data pd w)) =
           read_back pd (setitem df ''resolution_time_hours'' h) \<and>
         new_logs w (snd (extract_itsm_data pd w)) =
           [Info_extracted (length (df_rows df)), Info_columns (df_columns df),
            Info_missing (filter (\<lambda>(c, n). 0 < n) (isnull_sum df)), Info_saved]"
      by (auto simp: s new_logs_def)
  qed
  show ?thesis by (intro conjI a b c)
qed

lemma loader_fails_or_completes:
  "(fst (load_to_postgres w) = Inl e \<longleftrightarrow>
      staging_csv w = Inl e \<or>
      (\<exists>df. staging_csv w = Inr df) \<and>
        (db_fault w GetEngine = Some e \<or>
         db_fault w GetEngine = None \<and> db_fault w ToSql = Some e)) \<and>
   (fst (load_to_postgres w) = Inl e \<longrightarrow>
      fst (load_to_postgres_body w) = Inl e \<and>
      logs (snd (load_to_postgres w)) =
        logs (snd (load_to_postgres_body w)) @ [Error_loading e]) \<and>
   (fst (load_to_postgres w) = Inr () \<longrightarrow>
      (\<exists>df. staging_csv w = Inr df \<and>
         itsm_raw_tickets (snd (load_to_postgres w)) = Some (table_of_frame df) \<and>
         new_logs w (snd (load_to_postgres w)) = [Info_loaded (length (df_rows df))]))"
proof -
  have a: "fst (load_to_postgres w) = Inl e \<longleftrightarrow>
      staging_csv w = Inl e \<or>
      (\<exists>df. staging_csv w = Inr df) \<and>
        (db_fault w GetEngine = Some e \<or>
         db_fault w GetEngine = None \<and> db_fault w ToSql = Some e)"
    by (simp add: load_to_postgres_def load_to_postgres_body_raises)
  have b: "fst (load_to_postgres w) = Inl e \<longrightarrow>
      fst (load_to_postgres_body w) = Inl e \<and>
      logs (snd (load_to_postgres w)) =
        logs (snd (load_to_postgres_body w)) @ [Error_loading e]"
    by (simp add: load_to_postgres_def log_and_reraise_Inl)
  have c: "fst (load_to_postgres w) = Inr () \<longrightarrow>
      (\<exists>df. staging_csv w = Inr df \<and>
         itsm_raw_tickets (snd (load_to_postgres w)) = Some (table_of_frame df) \<and>
         new_logs w (snd (load_to_postgres w)) = [Info_loaded (length (df_rows df))])"
  proof
    assume "fst (load_to_postgres w) = Inr ()"
    then obtain df where df: "staging_csv w = Inr df" "db_fault w GetEngine = None"
        "db_fault w ToSql = None"
      using load_to_postgres_Inr [of w] by auto
    show "\<exists>df. staging_csv w = Inr df \<and>
         itsm_raw_tickets (snd (load_to_postgres w)) = Some (table_of_frame df) \<and>
         new_logs w (snd (load_to_postgres w)) = [Info_loaded (length (df_rows df))]"
      by (rule exI [of _ df]) (simp add: load_to_postgres_returns [OF df] new_logs_def df(1))
  qed
  show ?thesis by (intro conjI a b c)
qed

lemma checker_fails_or_completes:
  "(fst (run_data_quality_checks w) = Inl e \<longleftrightarrow>
      duplicate_query w = Inl e \<or>
      (\<exists>d. duplicate_query w = Inr d) \<and> outlier_query w = Inl e) \<and>
   (fst (run_data_quality_checks w) = Inl e \<longrightarrow>
      fst (run_data_quality_checks_body w) = Inl e \<and>
      logs (snd (run_data_quality_checks w)) =
        logs (snd (run_data_quality_checks_body w)) @ [Error_checks e]) \<and>
   (fst (run_data_quality_checks w) = Inr () \<longrightarrow>
      (\<exists>d n. duplicate_query w = Inr d \<and> outlier_query w = Inr n \<and>
         last (logs (snd (run_data_quality_checks w))) = Info_checks_completed))"
proof -
  have a: "fst (run_data_quality_checks w) = Inl e \<longleftrightarrow>
      duplicate_query w = Inl e \<or>
      (\<exists>d. duplicate_query w = Inr d) \<and> outlier_query w = Inl e"
  proof (cases "duplicate_query w")
    case (Inl e')
    then show ?thesis by (simp add: checks_duplicate_fails)
  next
    case d: (Inr d')
    show ?thesis
    proof (cases "outlier_query w")
      case (Inl e')
      with d show ?thesis by (simp add: checks_new_logs_outlier_fails)
    next
      case (Inr n')
      with d show ?thesis by (simp add: checks_logs)
    qed
  qed
  have b: "fst (run_data_quality_checks w) = Inl e \<longrightarrow>
      fst (run_data_quality_checks_body w) = Inl e \<and>
      logs (snd (run_data_quality_checks w)) =
        logs (snd (run_data_quality_checks_body w)) @ [Error_checks e]"
    by (simp add: run_data_quality_checks_def log_and_reraise_Inl)
  have c: "fst (run_data_quality_checks w) = Inr () \<longrightarrow>
      (\<exists>d n. duplicate_query w = Inr d \<and> outlier_query w = Inr n \<and>
         last (logs (snd (run_data_quality_checks w))) = Info_checks_completed)"
  proof (cases "duplicate_query w")
    case (Inl e')
    then show ?thesis by (simp add: checks_duplicate_fails)
  next
    case d: (Inr d')
    show ?thesis
    proof (cases "outlier_query w")
      case (Inl e')
      with d show ?thesis by (simp add: checks_new_logs_outlier_fails)
    next
      case (Inr n')
      with d show ?thesis by (simp add: checks_logs)
    qed
  qed
  show ?thesis by (intro conjI a b c)
qed


section \<open>Facts about the rounding to doubles\<close>

lemma two_powi_nat: "0 \<le> k \<Longrightarrow> (2::real) powi k = 2 ^ nat k"
  by (simp add: power_int_def)

lemma binade_bounds:
  assumes "0 < (x::real)"
  shows "2 powi binade x \<le> x" and "x < 2 powi (binade x + 1)"
proof -
  have "2 powi binade x \<le> x \<and> x < 2 powi (binade x + 1)"
  proof (cases "1 \<le> x")
    case True
    define n where "n = \<lfloor>x\<rfloor>"
    have n: "0 < n" using True by (simp add: n_def)
    have b: "binade x = bitlen n - 1" using True by (simp add: binade_def n_def)
    from bitlen_bounds [OF n] have lo: "2 ^ nat (bitlen n - 1) \<le> n" and hi: "n < 2 ^ nat (bitlen n)"
      by simp_all
    have pos: "1 \<le> bitlen n" using n by (simp add: bitlen_alt_def)
    have "(2::real) powi (bitlen n - 1) = of_int (2 ^ nat (bitlen n - 1))"
      using pos by (simp add: two_powi_nat)
    also have "\<dots> \<le> of_int n" using lo by (simp only: of_int_le_iff)
    also have "\<dots> \<le> x" by (simp add: n_def)
    finally have low: "2 powi (bitlen n - 1) \<le> x" .
    have "x < of_int (n + 1)" by (simp add: n_def)
    also have "\<dots> \<le> of_int (2 ^ nat (bitlen n))" using hi by (simp only: of_int_le_iff)
    also have "\<dots> = 2 powi (bitlen n)" using pos by (simp add: two_powi_nat)
    finally have "x < 2 powi (bitlen n)" .
    with low b show ?thesis by simp
  next
    case False
    define c where "c = \<lceil>1 / x\<rceil>"
    define k where "k = bitlen (c - 1)"
    have y: "1 < 1 / x" using False assms by simp
    then have c2: "0 < c - 1" by (simp add: c_def less_ceiling_iff)
    have b: "binade x = - k" using False by (simp add: binade_def c_def k_def)
    from bitlen_bounds [OF c2] have lo: "2 ^ nat (k - 1) \<le> c - 1" and hi: "c - 1 < 2 ^ nat k"
      by (simp_all add: k_def)
    have pos: "1 \<le> k" using c2 by (simp add: bitlen_alt_def k_def)
    have "1 / x \<le> of_int c" by (simp add: c_def)
    also have "\<dots> \<le> of_int (2 ^ nat k)" using hi by (simp only: of_int_le_iff)
    finally have "1 / x \<le> 2 ^ nat k" by simp
    then have "1 \<le> 2 ^ nat k * x" using assms by (simp add: field_simps)
    then have low: "2 powi (- k) \<le> x"
      using pos by (simp add: power_int_minus two_powi_nat field_simps)
    have "of_int (2 ^ nat (k - 1)) \<le> (of_int (c - 1) :: real)" using lo by (simp only: of_int_le_iff)
    also have "\<dots> < 1 / x" by (simp add: c_def) linarith
    finally have "2 ^ nat (k - 1) < 1 / x" by simp
    then have lt: "x < inverse (2 ^ nat (k - 1))" using assms by (simp add: field_simps)
    have "(2::real) powi (- k + 1) = 2 powi (- (k - 1))" by simp
    also have "\<dots> = inverse (2 powi (k - 1))" by (rule power_int_minus)
    also have "\<dots> = inverse (2 ^ nat (k - 1))" using pos by (simp add: two_powi_nat)
    finally have "(2::real) powi (- k + 1) = inverse (2 ^ nat (k - 1))" .
    with lt have "x < 2 powi (- k + 1)" by simp
    with low b show ?thesis by simp
  qed
  then show "2 powi binade x \<le> x" and "x < 2 powi (binade x + 1)" by simp_all
qed

lemma binade_unique:
  assumes "2 powi k \<le> (x::real)" and "x < 2 powi (k + 1)"
  shows "binade x = k"
proof -
  have pos: "0 < x" using assms(1) by (rule less_le_trans [rotated]) simp
  note b = binade_bounds [OF pos]
  have "(2::real) powi k < 2 powi (binade x + 1)" using assms(1) b(2) by simp
  then have "k < binade x + 1"
    by (metis power_int_increasing not_le one_le_numeral linorder_not_less)
  moreover have "(2::real) powi binade x < 2 powi (k + 1)" using assms(2) b(1) by simp
  then have "binade x < k + 1"
    by (metis power_int_increasing not_le one_le_numeral linorder_not_less)
  ultimately show ?thesis by simp
qed

lemma binade_floor_log: "0 < x \<Longrightarrow> binade x = \<lfloor>log 2 x\<rfloor>"
proof -
  assume pos: "0 < x"
  have "(2::real) powr (of_int (binade x)) = 2 powi binade x"
    by (rule powr_real_of_int') simp_all
  moreover have "(2::real) powr (of_int (binade x) + 1) = 2 powi (binade x + 1)"
    using powr_real_of_int' [of 2 "binade x + 1"] by simp
  ultimately have "\<lfloor>log 2 x\<rfloor> = binade x"
    using floor_log_eq_powr_iff [of x 2 "binade x"] pos binade_bounds [OF pos] by simp
  then show ?thesis by simp
qed

lemma round_half_even_near: "\<bar>of_int (round_half_even x) - x\<bar> \<le> 1 / 2"
proof -
  have "of_int \<lfloor>x\<rfloor> \<le> x" and "x < of_int \<lfloor>x\<rfloor> + 1" by linarith+
  then show ?thesis
    by (auto simp: round_half_even_def Let_def)
qed

lemma round_half_even_of_int [simp]: "round_half_even (of_int n) = n"
  by (simp add: round_half_even_def)

lemma float64_error:
  "\<bar>float64 x - x\<bar> \<le> \<bar>x\<bar> / 2 ^ 53"
proof (cases "x = 0")
  case True
  then show ?thesis by (simp add: float64_def)
next
  case False
  define e where "e = binade \<bar>x\<bar>"
  define q where "q = e - 52"
  define y where "y = x / 2 powi q"
  have fl: "float64 x = of_int (round_half_even y) * 2 powi q"
    using False by (simp add: float64_def Let_def e_def q_def y_def)
  have x: "x = y * 2 powi q" by (simp add: y_def)
  have "\<bar>float64 x - x\<bar> = \<bar>of_int (round_half_even y) - y\<bar> * 2 powi q"
    by (subst fl, subst x) (simp add: abs_mult flip: left_diff_distrib)
  also have "\<dots> \<le> (1 / 2) * 2 powi q"
    by (intro mult_right_mono round_half_even_near) simp
  also have "\<dots> = 2 powi e / 2 ^ 53"
  proof -
    have "(2::real) powi q = 2 powi e / 2 powi 52"
      unfolding q_def by (rule power_int_diff) simp
    then show ?thesis by simp
  qed
  also have "\<dots> \<le> \<bar>x\<bar> / 2 ^ 53"
    using binade_bounds(1) [of "\<bar>x\<bar>"] False by (simp add: e_def divide_right_mono)
  finally show ?thesis .
qed

lemma float64_representable:
  assumes "\<bar>m\<bar> < 2 ^ 53"
  shows "float64 (of_int m * 2 powi k) = of_int m * 2 powi k"
proof (cases "m = 0")
  case True
  then show ?thesis by (simp add: float64_def)
next
  case False
  define x :: real where "x = of_int m * 2 powi k"
  define e where "e = binade \<bar>x\<bar>"
  define q where "q = e - 52"
  have x0: "x \<noteq> 0" using False by (simp add: x_def)
  have "\<bar>x\<bar> = of_int \<bar>m\<bar> * 2 powi k" by (simp add: x_def abs_mult)
  also have "\<dots> < 2 ^ 53 * 2 powi k"
  proof -
    have "(of_int \<bar>m\<bar> :: real) < of_int (2 ^ 53)" using assms by (simp only: of_int_less_iff)
    then show ?thesis by (intro mult_strict_right_mono) simp_all
  qed
  also have "\<dots> = 2 powi (k + 53)"
    by (simp add: power_int_add)
  finally have "\<bar>x\<bar> < 2 powi (k + 53)" .
  moreover have "2 powi e \<le> \<bar>x\<bar>"
    using binade_bounds(1) [of "\<bar>x\<bar>"] x0 by (simp add: e_def)
  ultimately have "(2::real) powi e < 2 powi (k + 53)" by simp
  then have "e < k + 53"
    by (metis power_int_increasing not_le one_le_numeral linorder_not_less)
  then have qk: "q \<le> k" by (simp add: q_def)
  have "x / 2 powi q = of_int m * 2 powi (k - q)"
    by (simp add: x_def power_int_diff)
  also have "\<dots> = of_int (m * 2 ^ nat (k - q))"
    using qk by (simp add: power_int_def)
  finally have y: "x / 2 powi q = of_int (m * 2 ^ nat (k - q))" .
  have "float64 x = of_int (round_half_even (x / 2 powi q)) * 2 powi q"
    using x0 by (simp add: float64_def Let_def e_def q_def)
  also have "\<dots> = (x / 2 powi q) * 2 powi q"
    by (simp only: y round_half_even_of_int)
  also have "\<dots> = x" by simp
  finally show ?thesis by (simp add: x_def)
qed

lemma float64_of_int: "\<bar>m\<bar> < 2 ^ 53 \<Longrightarrow> float64 (of_int m) = of_int m"
  using float64_representable [of m 0] by simp

lemma float64_numeral [simp]:
  "(numeral n :: int) < 2 ^ 53 \<Longrightarrow> float64 (numeral n) = numeral n"
  using float64_of_int [of "numeral n"] by simp

lemma float64_one [simp]: "float64 1 = 1"
  using float64_of_int [of 1] by simp

lemma float64_eval:
  assumes "2 powi e \<le> \<bar>x\<bar>" and "\<bar>x\<bar> < 2 powi (e + 1)"
  shows "float64 x = of_int (round_half_even (x / 2 powi (e - 52))) * 2 powi (e - 52)"
proof -
  have "0 < \<bar>x\<bar>" using assms(1) by (rule less_le_trans [rotated]) simp
  then have "x \<noteq> 0" by simp
  moreover have "binade \<bar>x\<bar> = e" using assms by (rule binade_unique)
  ultimately show ?thesis by (simp add: float64_def Let_def)
qed

lemma float64_3600th: "float64 (1 / 3600) = 5124095576030431 / 2 ^ 64"
proof -
  have r: "round_half_even ((1 / 3600) / 2 powi (- 12 - 52)) = 5124095576030431"
    by (simp add: round_half_even_def Let_def power_int_minus)
  have "float64 (1 / 3600) =
      of_int (round_half_even ((1 / 3600) / 2 powi (- 12 - 52))) * 2 powi (- 12 - 52)"
    by (rule float64_eval) (simp_all add: power_int_minus)
  also have "\<dots> = 5124095576030431 / 2 ^ 64"
    by (simp only: r) (simp add: power_int_minus)
  finally show ?thesis .
qed


lemma ts1: "Timestamp 2024 1 1 0 0 0 = 1704067200000000000"
  by (simp add: Timestamp_def days_from_civil_def)
lemma ts2: "Timestamp 2024 1 2 0 0 0 = 1704153600000000000"
  by (simp add: Timestamp_def days_from_civil_def)
lemma ts3: "Timestamp 2024 1 1 0 0 1 = 1704067201000000000"
  by (simp add: Timestamp_def days_from_civil_def)

lemma second_sheet_hours:
  "resolution_time_hours pandas2 second_sheet = Inr [FloatC (5124095576030431 / 2 ^ 64)]"
  by (simp add: resolution_time_hours_def second_sheet_def getitem_def to_datetime_def
      to_datetime_cell_def bind_exn_def sub_series_def sub_datetime_def int64_range_def
      hours_cell_def truediv_def pandas2_def source_ticket_def cell_at_def ts1 ts3
      float64_3600th)

lemma day_sheet_hours:
  "resolution_time_hours pandas2 day_sheet = Inr [FloatC 24, NullC]"
  by (simp add: resolution_time_hours_def day_sheet_def getitem_def to_datetime_def
      to_datetime_cell_def bind_exn_def sub_series_def sub_datetime_def int64_range_def
      hours_cell_def truediv_def pandas2_def source_ticket_def cell_at_def ts1 ts2)


section \<open>Facts about the extractor\<close>

lemma sequence_exn_Inr:
  "sequence_exn ms = Inr xs \<Longrightarrow>
     length xs = length ms \<and> (\<forall>i < length ms. ms ! i = Inr (xs ! i))"
proof (induction ms arbitrary: xs)
  case Nil
  then show ?case by simp
next
  case (Cons m ms)
  from Cons.prems obtain y ys where m: "m = Inr y" and ys: "sequence_exn ms = Inr ys"
    and xs: "xs = y # ys"
    by (auto simp: bind_exn_def split: sum.splits)
  from Cons.IH [OF ys] have "length ys = length ms" and "\<forall>i < length ms. ms ! i = Inr (ys ! i)"
    by simp_all
  then show ?case
    using m xs by (auto simp: nth_Cons split: nat.splits)
qed

lemma resolution_time_hours_row:
  assumes "resolution_time_hours pd df = Inr hs" and "i < length (df_rows df)"
  shows "length hs = length (df_rows df) \<and>
    (\<exists>a b d. to_datetime_cell pd (cell_at (df_rows df ! i) ''inc_resolved_at'') = Inr a \<and>
       to_datetime_cell pd (cell_at (df_rows df ! i) ''inc_sys_created_on'') = Inr b \<and>
       sub_datetime a b = Inr d \<and> hs ! i = hours_cell pd d)"
proof -
  from assms(1) obtain resolved created delta where
    r: "to_datetime pd (map (\<lambda>r. cell_at r ''inc_resolved_at'') (df_rows df)) = Inr resolved"
    and c: "to_datetime pd (map (\<lambda>r. cell_at r ''inc_sys_created_on'') (df_rows df)) = Inr created"
    and d: "sub_series resolved created = Inr delta"
    and hs: "hs = map (hours_cell pd) delta"
    by (auto simp: resolution_time_hours_def getitem_def bind_exn_def
        split: sum.splits if_splits)
  let ?n = "length (df_rows df)"
  from sequence_exn_Inr [OF r [unfolded to_datetime_def]] assms(2)
  have lr: "length resolved = ?n"
    and ri: "to_datetime_cell pd (cell_at (df_rows df ! i) ''inc_resolved_at'') = Inr (resolved ! i)"
    by simp_all
  from sequence_exn_Inr [OF c [unfolded to_datetime_def]] assms(2)
  have lc: "length created = ?n"
    and ci: "to_datetime_cell pd (cell_at (df_rows df ! i) ''inc_sys_created_on'') = Inr (created ! i)"
    by simp_all
  from sequence_exn_Inr [OF d [unfolded sub_series_def]] lr lc assms(2)
  have ld: "length delta = ?n"
    and di: "sub_datetime (resolved ! i) (created ! i) = Inr (delta ! i)"
    by simp_all
  have "hs ! i = hours_cell pd (delta ! i)"
    using hs ld assms(2) by simp
  with ri ci di hs ld show ?thesis by auto
qed

lemma cell_at_setitem:
  assumes "length vs = length (df_rows df)" and "i < length (df_rows df)"
  shows "cell_at (df_rows (setitem df c vs) ! i) c = vs ! i"
  using assms by (simp add: setitem_def cell_at_def)

lemma to_datetime_cell_simps [simp]:
  "to_datetime_cell pd (TsC t) = Inr (Some t)"
  "to_datetime_cell pd NullC = Inr None"
  by (simp_all add: to_datetime_cell_def)

lemma whole_hours_exact:
  assumes "\<bar>h\<bar> < 2 ^ 53" and "d = h * (3600 * 10 ^ 9)"
    and "total_seconds pd d = of_int d / 10 ^ 9"
  shows "truediv (total_seconds pd d) 3600 = of_int h"
proof -
  have "total_seconds pd d / 3600 = of_int h"
    using assms(2,3) by simp
  then show ?thesis
    using float64_of_int [OF assms(1)] by (simp add: truediv_def)
qed

lemma extract_itsm_data_returns:
  assumes "excel_file w = Inr df" and "resolution_time_hours pd df = Inr hs"
    and "csv_write_fault w = None"
  shows "extract_itsm_data pd w =
           (Inr (), w\<lparr>staging_csv := read_back pd (setitem df ''resolution_time_hours'' hs),
                       logs := logs w @
                         [Info_extracted (length (df_rows df)), Info_columns (df_columns df),
                          Info_missing (filter (\<lambda>(c, n). 0 < n) (isnull_sum df)),
                          Info_saved]\<rparr>)"
  using assms
  by (simp add: extract_itsm_data_def extract_itsm_data_body_def log_and_reraise_def Let_def
      logging_def)

lemma excel_world_simps [simp]:
  "excel_file (excel_world df) = Inr df"
  "csv_write_fault (excel_world df) = None"
  "logs (excel_world df) = []"
  by (simp_all add: excel_world_def quiet_world_def)

lemma text_sheet_hours: "resolution_time_hours pandas2 text_sheet = Inr [FloatC 24]"
  by (simp add: resolution_time_hours_def text_sheet_def getitem_def to_datetime_def
      to_datetime_cell_def bind_exn_def sub_series_def sub_datetime_def int64_range_def
      hours_cell_def truediv_def pandas2_def source_ticket_def cell_at_def ts1 ts2)

lemma edge_sheet_hours: "resolution_time_hours pandas2 edge_sheet = Inr [NullC]"
  by (simp add: resolution_time_hours_def edge_sheet_def getitem_def to_datetime_def
      to_datetime_cell_def bind_exn_def sub_series_def sub_datetime_def
      hours_cell_def source_ticket_def cell_at_def)

lemma extractor_returns_on_sheet:
  assumes "resolution_time_hours pandas2 df = Inr hs"
  shows "fst (extract_itsm_data pandas2 (excel_world df)) = Inr ()"
    and "staging_csv (snd (extract_itsm_data pandas2 (excel_world df))) =
           read_back pandas2 (setitem df ''resolution_time_hours'' hs)"
  using extract_itsm_data_returns [of "excel_world df" df pandas2 hs] assms by simp_all

lemma rounded_quotient_accuracy:
  fixes t s e :: real
  assumes "\<bar>t - s\<bar> \<le> e * \<bar>s\<bar>"
  shows "\<bar>float64 (t / 3600) - s / 3600\<bar> \<le> (e + (1 + e) / 2 ^ 53) * \<bar>s / 3600\<bar>"
proof -
  let ?q = "t / 3600" and ?h = "s / 3600"
  have qh: "\<bar>?q - ?h\<bar> \<le> e * \<bar>?h\<bar>"
  proof -
    have "\<bar>?q - ?h\<bar> = \<bar>t - s\<bar> / 3600" by (simp add: diff_divide_distrib [symmetric])
    also have "\<dots> \<le> (e * \<bar>s\<bar>) / 3600" using assms by (rule divide_right_mono) simp
    also have "\<dots> = e * \<bar>?h\<bar>" by simp
    finally show ?thesis .
  qed
  have "\<bar>?q\<bar> \<le> \<bar>?h\<bar> + \<bar>?q - ?h\<bar>" by linarith
  with qh have q: "\<bar>?q\<bar> \<le> (1 + e) * \<bar>?h\<bar>" by (simp add: algebra_simps)
  have "\<bar>float64 ?q - ?q\<bar> \<le> \<bar>?q\<bar> / 2 ^ 53" by (rule float64_error)
  also have "\<dots> \<le> ((1 + e) * \<bar>?h\<bar>) / 2 ^ 53" using q by (rule divide_right_mono) simp
  finally have x: "\<bar>float64 ?q - ?q\<bar> \<le> ((1 + e) * \<bar>?h\<bar>) / 2 ^ 53" .
  have "\<bar>float64 ?q - ?h\<bar> \<le> \<bar>float64 ?q - ?q\<bar> + \<bar>?q - ?h\<bar>" by linarith
  also have "\<dots> \<le> ((1 + e) * \<bar>?h\<bar>) / 2 ^ 53 + e * \<bar>?h\<bar>" using x qh by linarith
  also have "\<dots> = (e + (1 + e) / 2 ^ 53) * \<bar>?h\<bar>" by (simp add: algebra_simps)
  finally show ?thesis .
qed

text \<open>
  Claim C1 as stated fails: the field is a double, and the exact number of hours need not
  be one. For a ticket resolved one second after its creation the extractor writes the
  double nearest to 1/3600, which is \<open>5124095576030431 / 2\<^sup>6\<^sup>4\<close> and not 1/3600.
\<close>

theorem one_second_is_not_exact:
  "fst (extract_itsm_data pandas2 (excel_world second_sheet)) = Inr () \<and>
   resolution_time_hours pandas2 second_sheet = Inr [FloatC (5124095576030431 / 2 ^ 64)] \<and>
   staging_csv (snd (extract_itsm_data pandas2 (excel_world second_sheet))) =
     read_back pandas2
       (setitem second_sheet ''resolution_time_hours'' [FloatC (5124095576030431 / 2 ^ 64)]) \<and>
   (5124095576030431 / 2 ^ 64 :: real) \<noteq>
     of_int (Timestamp 2024 1 1 0 0 1 - Timestamp 2024 1 1 0 0 0) / (3600 * 10 ^ 9)"
proof -
  have "(5124095576030431 / 2 ^ 64 :: real) \<noteq>
     of_int (Timestamp 2024 1 1 0 0 1 - Timestamp 2024 1 1 0 0 0) / (3600 * 10 ^ 9)"
    by (simp add: ts1 ts3)
  then show ?thesis
    by (intro conjI extractor_returns_on_sheet [OF second_sheet_hours] second_sheet_hours)
qed

text \<open>
  Claim C1, amended. Take a source row whose two timestamps are present, as datetimes or
  as values \<^verbatim>\<open>pd.to_datetime\<close> converts to datetimes, in a run of the extractor that
  returns. When the difference resolved minus created is not \<open>- 2\<^sup>6\<^sup>3\<close> nanoseconds, the
  field \<^verbatim>\<open>resolution_time_hours\<close> of the row in the frame the extractor writes is that
  difference in hours as a double: the quotient of \<^verbatim>\<open>total_seconds()\<close> of the difference
  by 3600, rounded to the nearest double. It is within a relative error of \<open>2\<^sup>-\<^sup>5\<^sup>3\<close> of
  that quotient and equal to it whenever the quotient is a double; it is as close to the
  exact number of hours as the accuracy of \<^verbatim>\<open>total_seconds()\<close> and one more rounding
  allow; and a difference of a whole number of hours whose seconds \<^verbatim>\<open>total_seconds()\<close>
  returns exactly gives exactly that number. When the difference is \<open>- 2\<^sup>6\<^sup>3\<close>
  nanoseconds, which is the bit pattern of NaT, the field is missing. With
  \<^verbatim>\<open>total_seconds()\<close> computed in doubles, the row created 2024-01-01T00:00:00 and
  resolved 2024-01-02T00:00:00 gets exactly 24.0, whether the sheet holds its timestamps
  as datetimes or as text.
\<close>

theorem resolution_time_is_rounded_quotient:
  assumes "excel_file w = Inr df"
    and "fst (extract_itsm_data pd w) = Inr ()"
    and "i < length (df_rows df)"
    and "to_datetime_cell pd (cell_at (df_rows df ! i) ''inc_sys_created_on'') = Inr (Some c)"
    and "to_datetime_cell pd (cell_at (df_rows df ! i) ''inc_resolved_at'') = Inr (Some r)"
  shows "(\<exists>hs. resolution_time_hours pd df = Inr hs \<and>
      staging_csv (snd (extract_itsm_data pd w)) =
        read_back pd (setitem df ''resolution_time_hours'' hs) \<and>
      length (df_rows (setitem df ''resolution_time_hours'' hs)) = length (df_rows df) \<and>
      (r - c = - (2 ^ 63) \<longrightarrow>
         cell_at (df_rows (setitem df ''resolution_time_hours'' hs) ! i)
           ''resolution_time_hours'' = NullC) \<and>
      (r - c \<noteq> - (2 ^ 63) \<longrightarrow>
         (\<exists>x. cell_at (df_rows (setitem df ''resolution_time_hours'' hs) ! i)
                ''resolution_time_hours'' = FloatC x \<and>
              x = float64 (total_seconds pd (r - c) / 3600) \<and>
              \<bar>x - total_seconds pd (r - c) / 3600\<bar>
                \<le> \<bar>total_seconds pd (r - c) / 3600\<bar> / 2 ^ 53 \<and>
              (\<forall>m k. \<bar>m\<bar> < 2 ^ 53 \<and> total_seconds pd (r - c) / 3600 = of_int m * 2 powi k
                 \<longrightarrow> x = total_seconds pd (r - c) / 3600) \<and>
              (\<forall>e. \<bar>total_seconds pd (r - c) - of_int (r - c) / 10 ^ 9\<bar>
                     \<le> e * \<bar>of_int (r - c) / 10 ^ 9\<bar> \<longrightarrow>
                   \<bar>x - of_int (r - c) / 10 ^ 9 / 3600\<bar>
                     \<le> (e + (1 + e) / 2 ^ 53) * \<bar>of_int (r - c) / 10 ^ 9 / 3600\<bar>) \<and>
              (\<forall>h. \<bar>h\<bar> < 2 ^ 53 \<and> r - c = h * (3600 * 10 ^ 9) \<and>
                   total_seconds pd (r - c) = of_int (r - c) / 10 ^ 9 \<longrightarrow> x = of_int h)))) \<and>
     resolution_time_hours pandas2 day_sheet = Inr [FloatC 24, NullC] \<and>
     resolution_time_hours pandas2 text_sheet = Inr [FloatC 24]"
proof -
  from extractor_fails_or_completes [of pd w] assms(1,2)
  obtain hs where hs: "resolution_time_hours pd df = Inr hs"
    and st: "staging_csv (snd (extract_itsm_data pd w)) =
        read_back pd (setitem df ''resolution_time_hours'' hs)"
    by auto
  let ?df' = "setitem df ''resolution_time_hours'' hs"
  let ?q = "total_seconds pd (r - c) / 3600"
  from resolution_time_hours_row [OF hs assms(3)] assms(4,5)
  obtain d where len: "length hs = length (df_rows df)"
    and d: "sub_datetime (Some r) (Some c) = Inr d" and hi: "hs ! i = hours_cell pd d"
    by auto
  have len': "length (df_rows ?df') = length (df_rows df)"
    using len by (simp add: setitem_def)
  have at: "cell_at (df_rows ?df' ! i) ''resolution_time_hours'' = hs ! i"
    by (rule cell_at_setitem [OF len assms(3)])
  have nat: "r - c = - (2 ^ 63) \<longrightarrow>
      cell_at (df_rows ?df' ! i) ''resolution_time_hours'' = NullC"
  proof
    assume "r - c = - (2 ^ 63)"
    with d have "d = None" by (simp add: sub_datetime_def)
    with hi at show "cell_at (df_rows ?df' ! i) ''resolution_time_hours'' = NullC"
      by (simp add: hours_cell_def)
  qed
  have num: "r - c \<noteq> - (2 ^ 63) \<longrightarrow>
      (\<exists>x. cell_at (df_rows ?df' ! i) ''resolution_time_hours'' = FloatC x \<and>
           x = float64 ?q \<and>
           \<bar>x - ?q\<bar> \<le> \<bar>?q\<bar> / 2 ^ 53 \<and>
           (\<forall>m k. \<bar>m\<bar> < 2 ^ 53 \<and> ?q = of_int m * 2 powi k \<longrightarrow> x = ?q) \<and>
           (\<forall>e. \<bar>total_seconds pd (r - c) - of_int (r - c) / 10 ^ 9\<bar>
                  \<le> e * \<bar>of_int (r - c) / 10 ^ 9\<bar> \<longrightarrow>
                \<bar>x - of_int (r - c) / 10 ^ 9 / 3600\<bar>
                  \<le> (e + (1 + e) / 2 ^ 53) * \<bar>of_int (r - c) / 10 ^ 9 / 3600\<bar>) \<and>
           (\<forall>h. \<bar>h\<bar> < 2 ^ 53 \<and> r - c = h * (3600 * 10 ^ 9) \<and>
                total_seconds pd (r - c) = of_int (r - c) / 10 ^ 9 \<longrightarrow> x = of_int h))"
  proof
    assume ne: "r - c \<noteq> - (2 ^ 63)"
    with d have "d = Some (r - c)"
      by (auto simp: sub_datetime_def split: if_splits)
    with hi at have cell: "cell_at (df_rows ?df' ! i) ''resolution_time_hours'' = FloatC (float64 ?q)"
      by (simp add: hours_cell_def truediv_def)
    have err: "\<bar>float64 ?q - ?q\<bar> \<le> \<bar>?q\<bar> / 2 ^ 53"
      by (rule float64_error)
    have rep: "\<forall>m k. \<bar>m\<bar> < 2 ^ 53 \<and> ?q = of_int m * 2 powi k \<longrightarrow> float64 ?q = ?q"
      using float64_representable by auto
    have acc: "\<forall>e. \<bar>total_seconds pd (r - c) - of_int (r - c) / 10 ^ 9\<bar>
                  \<le> e * \<bar>of_int (r - c) / 10 ^ 9\<bar> \<longrightarrow>
                \<bar>float64 ?q - of_int (r - c) / 10 ^ 9 / 3600\<bar>
                  \<le> (e + (1 + e) / 2 ^ 53) * \<bar>of_int (r - c) / 10 ^ 9 / 3600\<bar>"
      by (intro allI impI rounded_quotient_accuracy)
    have whole: "\<forall>h. \<bar>h\<bar> < 2 ^ 53 \<and> r - c = h * (3600 * 10 ^ 9) \<and>
        total_seconds pd (r - c) = of_int (r - c) / 10 ^ 9 \<longrightarrow> float64 ?q = of_int h"
    proof (intro allI impI)
      fix h
      assume a: "\<bar>h\<bar> < 2 ^ 53 \<and> r - c = h * (3600 * 10 ^ 9) \<and>
        total_seconds pd (r - c) = of_int (r - c) / 10 ^ 9"
      then have h1: "\<bar>h\<bar> < 2 ^ 53" and h2: "r - c = h * (3600 * 10 ^ 9)"
        and h3: "total_seconds pd (r - c) = of_int (r - c) / 10 ^ 9"
        by blast+
      from whole_hours_exact [OF h1 h2 h3] show "float64 ?q = of_int h"
        by (simp only: truediv_def)
    qed
    show "\<exists>x. cell_at (df_rows ?df' ! i) ''resolution_time_hours'' = FloatC x \<and>
           x = float64 ?q \<and>
           \<bar>x - ?q\<bar> \<le> \<bar>?q\<bar> / 2 ^ 53 \<and>
           (\<forall>m k. \<bar>m\<bar> < 2 ^ 53 \<and> ?q = of_int m * 2 powi k \<longrightarrow> x = ?q) \<and>
           (\<forall>e. \<bar>total_seconds pd (r - c) - of_int (r - c) / 10 ^ 9\<bar>
                  \<le> e * \<bar>of_int (r - c) / 10 ^ 9\<bar> \<longrightarrow>
                \<bar>x - of_int (r - c) / 10 ^ 9 / 3600\<bar>
                  \<le> (e + (1 + e) / 2 ^ 53) * \<bar>of_int (r - c) / 10 ^ 9 / 3600\<bar>) \<and>
           (\<forall>h. \<bar>h\<bar> < 2 ^ 53 \<and> r - c = h * (3600 * 10 ^ 9) \<and>
                total_seconds pd (r - c) = of_int (r - c) / 10 ^ 9 \<longrightarrow> x = of_int h)"
      by (intro exI [of _ "float64 ?q"] conjI cell refl err rep acc whole)
  qed
  have "\<exists>hs. resolution_time_hours pd df = Inr hs \<and>
      staging_csv (snd (extract_itsm_data pd w)) =
        read_back pd (setitem df ''resolution_time_hours'' hs) \<and>
      length (df_rows (setitem df ''resolution_time_hours'' hs)) = length (df_rows df) \<and>
      (r - c = - (2 ^ 63) \<longrightarrow>
         cell_at (df_rows (setitem df ''resolution_time_hours'' hs) ! i)
           ''resolution_time_hours'' = NullC) \<and>
      (r - c \<noteq> - (2 ^ 63) \<longrightarrow>
         (\<exists>x. cell_at (df_rows (setitem df ''resolution_time_hours'' hs) ! i)
                ''resolution_time_hours'' = FloatC x \<and>
              x = float64 ?q \<and>
              \<bar>x - ?q\<bar> \<le> \<bar>?q\<bar> / 2 ^ 53 \<and>
              (\<forall>m k. \<bar>m\<bar> < 2 ^ 53 \<and> ?q = of_int m * 2 powi k \<longrightarrow> x = ?q) \<and>
              (\<forall>e. \<bar>total_seconds pd (r - c) - of_int (r - c) / 10 ^ 9\<bar>
                     \<le> e * \<bar>of_int (r - c) / 10 ^ 9\<bar> \<longrightarrow>
                   \<bar>x - of_int (r - c) / 10 ^ 9 / 3600\<bar>
                     \<le> (e + (1 + e) / 2 ^ 53) * \<bar>of_int (r - c) / 10 ^ 9 / 3600\<bar>) \<and>
              (\<forall>h. \<bar>h\<bar> < 2 ^ 53 \<and> r - c = h * (3600 * 10 ^ 9) \<and>
                   total_seconds pd (r - c) = of_int (r - c) / 10 ^ 9 \<longrightarrow> x = of_int h)))"
    by (intro exI [of _ hs] conjI hs st len' nat num)
  then show ?thesis
    by (intro conjI day_sheet_hours text_sheet_hours)
qed

theorem resolution_time_is_rounded_quotient_witness:
  "excel_file (excel_world day_sheet) = Inr day_sheet \<and>
   fst (extract_itsm_data pandas2 (excel_world day_sheet)) = Inr () \<and>
   to_datetime_cell pandas2 (cell_at (df_rows day_sheet ! 0) ''inc_sys_created_on'') =
     Inr (Some (Timestamp 2024 1 1 0 0 0)) \<and>
   to_datetime_cell pandas2 (cell_at (df_rows day_sheet ! 0) ''inc_resolved_at'') =
     Inr (Some (Timestamp 2024 1 2 0 0 0)) \<and>
   Timestamp 2024 1 2 0 0 0 - Timestamp 2024 1 1 0 0 0 \<noteq> - (2 ^ 63) \<and>
   \<bar>3 :: int\<bar> < 2 ^ 53 \<and>
   total_seconds pandas2 (Timestamp 2024 1 2 0 0 0 - Timestamp 2024 1 1 0 0 0) / 3600 =
     of_int 3 * 2 powi 3 \<and>
   \<bar>total_seconds pandas2 (Timestamp 2024 1 2 0 0 0 - Timestamp 2024 1 1 0 0 0) -
      of_int (Timestamp 2024 1 2 0 0 0 - Timestamp 2024 1 1 0 0 0) / 10 ^ 9\<bar>
     \<le> 0 * \<bar>of_int (Timestamp 2024 1 2 0 0 0 - Timestamp 2024 1 1 0 0 0) / 10 ^ 9\<bar> \<and>
   \<bar>24 :: int\<bar> < 2 ^ 53 \<and>
   Timestamp 2024 1 2 0 0 0 - Timestamp 2024 1 1 0 0 0 = 24 * (3600 * 10 ^ 9) \<and>
   total_seconds pandas2 (Timestamp 2024 1 2 0 0 0 - Timestamp 2024 1 1 0 0 0) =
     of_int (Timestamp 2024 1 2 0 0 0 - Timestamp 2024 1 1 0 0 0) / 10 ^ 9 \<and>
   cell_at (df_rows (setitem day_sheet ''resolution_time_hours'' [FloatC 24, NullC]) ! 0)
     ''resolution_time_hours'' = FloatC 24 \<and>
   excel_file (excel_world text_sheet) = Inr text_sheet \<and>
   fst (extract_itsm_data pandas2 (excel_world text_sheet)) = Inr () \<and>
   to_datetime_cell pandas2 (cell_at (df_rows text_sheet ! 0) ''inc_sys_created_on'') =
     Inr (Some (Timestamp 2024 1 1 0 0 0)) \<and>
   to_datetime_cell pandas2 (cell_at (df_rows text_sheet ! 0) ''inc_resolved_at'') =
     Inr (Some (Timestamp 2024 1 2 0 0 0)) \<and>
   cell_at (df_rows (setitem text_sheet ''resolution_time_hours'' [FloatC 24]) ! 0)
     ''resolution_time_hours'' = FloatC 24 \<and>
   excel_file (excel_world edge_sheet) = Inr edge_sheet \<and>
   fst (extract_itsm_data pandas2 (excel_world edge_sheet)) = Inr () \<and>
   to_datetime_cell pandas2 (cell_at (df_rows edge_sheet ! 0) ''inc_sys_created_on'') =
     Inr (Some (2 ^ 63 - 1)) \<and>
   to_datetime_cell pandas2 (cell_at (df_rows edge_sheet ! 0) ''inc_resolved_at'') =
     Inr (Some (- 1)) \<and>
   (- 1 :: int) - (2 ^ 63 - 1) = - (2 ^ 63) \<and>
   cell_at (df_rows (setitem edge_sheet ''resolution_time_hours'' [NullC]) ! 0)
     ''resolution_time_hours'' = NullC"
proof -
  let ?c = "Timestamp 2024 1 1 0 0 0" and ?r = "Timestamp 2024 1 2 0 0 0"
  let ?d = "Timestamp 2024 1 2 0 0 0 - Timestamp 2024 1 1 0 0 0"
  let ?rth = "''resolution_time_hours''"
  have d: "?d = 24 * (3600 * 10 ^ 9)" by (simp add: ts1 ts2)
  have ne: "?d \<noteq> - (2 ^ 63)" by (simp add: ts1 ts2)
  have s: "total_seconds pandas2 ?d = of_int ?d / 10 ^ 9"
    by (simp add: ts1 ts2 pandas2_def)
  have rep: "\<bar>3 :: int\<bar> < 2 ^ 53" "total_seconds pandas2 ?d / 3600 = of_int 3 * 2 powi 3"
    using s d by simp_all
  have acc: "\<bar>total_seconds pandas2 ?d - of_int ?d / 10 ^ 9\<bar> \<le> 0 * \<bar>of_int ?d / 10 ^ 9\<bar>"
    using s by simp
  have whole: "\<bar>24 :: int\<bar> < 2 ^ 53 \<and> ?d = 24 * (3600 * 10 ^ 9) \<and>
      total_seconds pandas2 ?d = of_int ?d / 10 ^ 9"
    using d s by simp

  have day_ex: "excel_file (excel_world day_sheet) = Inr day_sheet" by simp
  have day_ok: "fst (extract_itsm_data pandas2 (excel_world day_sheet)) = Inr ()"
    by (rule extractor_returns_on_sheet [OF day_sheet_hours])
  have day_i: "0 < length (df_rows day_sheet)" by (simp add: day_sheet_def)
  have day_c: "to_datetime_cell pandas2 (cell_at (df_rows day_sheet ! 0) ''inc_sys_created_on'') =
      Inr (Some ?c)"
    and day_r: "to_datetime_cell pandas2 (cell_at (df_rows day_sheet ! 0) ''inc_resolved_at'') =
      Inr (Some ?r)"
    by (simp_all add: day_sheet_def source_ticket_def cell_at_def)
  from resolution_time_is_rounded_quotient [OF day_ex day_ok day_i day_c day_r, THEN conjunct1]
  obtain hs where hs: "resolution_time_hours pandas2 day_sheet = Inr hs"
    and num: "?d \<noteq> - (2 ^ 63) \<longrightarrow>
      (\<exists>x. cell_at (df_rows (setitem day_sheet ?rth hs) ! 0) ?rth = FloatC x \<and>
           x = float64 (total_seconds pandas2 ?d / 3600) \<and>
           \<bar>x - total_seconds pandas2 ?d / 3600\<bar> \<le> \<bar>total_seconds pandas2 ?d / 3600\<bar> / 2 ^ 53 \<and>
           (\<forall>m k. \<bar>m\<bar> < 2 ^ 53 \<and> total_seconds pandas2 ?d / 3600 = of_int m * 2 powi k
              \<longrightarrow> x = total_seconds pandas2 ?d / 3600) \<and>
           (\<forall>e. \<bar>total_seconds pandas2 ?d - of_int ?d / 10 ^ 9\<bar>
                  \<le> e * \<bar>of_int ?d / 10 ^ 9\<bar> \<longrightarrow>
                \<bar>x - of_int ?d / 10 ^ 9 / 3600\<bar>
                  \<le> (e + (1 + e) / 2 ^ 53) * \<bar>of_int ?d / 10 ^ 9 / 3600\<bar>) \<and>
           (\<forall>h. \<bar>h\<bar> < 2 ^ 53 \<and> ?d = h * (3600 * 10 ^ 9) \<and>
                total_seconds pandas2 ?d = of_int ?d / 10 ^ 9 \<longrightarrow> x = of_int h))"
    by (elim exE conjE) (rule that; assumption)
  from hs have hs_eq: "hs = [FloatC 24, NullC]" by (simp add: day_sheet_hours)
  from num [THEN mp, OF ne]
  obtain x where cell: "cell_at (df_rows (setitem day_sheet ?rth hs) ! 0) ?rth = FloatC x"
    and all: "\<forall>h. \<bar>h\<bar> < 2 ^ 53 \<and> ?d = h * (3600 * 10 ^ 9) \<and>
                total_seconds pandas2 ?d = of_int ?d / 10 ^ 9 \<longrightarrow> x = of_int h"
    by (elim exE conjE) (rule that; assumption)
  from all have "\<bar>24 :: int\<bar> < 2 ^ 53 \<and> ?d = 24 * (3600 * 10 ^ 9) \<and>
      total_seconds pandas2 ?d = of_int ?d / 10 ^ 9 \<longrightarrow> x = of_int 24"
    by (rule spec)
  with whole have "x = of_int 24" by (rule rev_mp)
  with cell hs_eq have day: "cell_at (df_rows (setitem day_sheet ?rth [FloatC 24, NullC]) ! 0) ?rth
      = FloatC 24"
    by simp

  have text_ex: "excel_file (excel_world text_sheet) = Inr text_sheet" by simp
  have text_ok: "fst (extract_itsm_data pandas2 (excel_world text_sheet)) = Inr ()"
    by (rule extractor_returns_on_sheet [OF text_sheet_hours])
  have text_i: "0 < length (df_rows text_sheet)" by (simp add: text_sheet_def)
  have text_c: "to_datetime_cell pandas2 (cell_at (df_rows text_sheet ! 0) ''inc_sys_created_on'') =
      Inr (Some ?c)"
    and text_r: "to_datetime_cell pandas2 (cell_at (df_rows text_sheet ! 0) ''inc_resolved_at'') =
      Inr (Some ?r)"
    by (simp_all add: text_sheet_def source_ticket_def cell_at_def to_datetime_cell_def pandas2_def)
  from resolution_time_is_rounded_quotient [OF text_ex text_ok text_i text_c text_r, THEN conjunct1]
  obtain ts where ts: "resolution_time_hours pandas2 text_sheet = Inr ts"
    and tnum: "?d \<noteq> - (2 ^ 63) \<longrightarrow>
      (\<exists>x. cell_at (df_rows (setitem text_sheet ?rth ts) ! 0) ?rth = FloatC x \<and>
           x = float64 (total_seconds pandas2 ?d / 3600) \<and>
           \<bar>x - total_seconds pandas2 ?d / 3600\<bar> \<le> \<bar>total_seconds pandas2 ?d / 3600\<bar> / 2 ^ 53 \<and>
           (\<forall>m k. \<bar>m\<bar> < 2 ^ 53 \<and> total_seconds pandas2 ?d / 3600 = of_int m * 2 powi k
              \<longrightarrow> x = total_seconds pandas2 ?d / 3600) \<and>
           (\<forall>e. \<bar>total_seconds pandas2 ?d - of_int ?d / 10 ^ 9\<bar>
                  \<le> e * \<bar>of_int ?d / 10 ^ 9\<bar> \<longrightarrow>
                \<bar>x - of_int ?d / 10 ^ 9 / 3600\<bar>
                  \<le> (e + (1 + e) / 2 ^ 53) * \<bar>of_int ?d / 10 ^ 9 / 3600\<bar>) \<and>
           (\<forall>h. \<bar>h\<bar> < 2 ^ 53 \<and> ?d = h * (3600 * 10 ^ 9) \<and>
                total_seconds pandas2 ?d = of_int ?d / 10 ^ 9 \<longrightarrow> x = of_int h))"
    by (elim exE conjE) (rule that; assumption)
  from ts have ts_eq: "ts = [FloatC 24]" by (simp add: text_sheet_hours)
  from tnum [THEN mp, OF ne]
  obtain y where tcell: "cell_at (df_rows (setitem text_sheet ?rth ts) ! 0) ?rth = FloatC y"
    and tall: "\<forall>h. \<bar>h\<bar> < 2 ^ 53 \<and> ?d = h * (3600 * 10 ^ 9) \<and>
                total_seconds pandas2 ?d = of_int ?d / 10 ^ 9 \<longrightarrow> y = of_int h"
    by (elim exE conjE) (rule that; assumption)
  from tall have "\<bar>24 :: int\<bar> < 2 ^ 53 \<and> ?d = 24 * (3600 * 10 ^ 9) \<and>
      total_seconds pandas2 ?d = of_int ?d / 10 ^ 9 \<longrightarrow> y = of_int 24"
    by (rule spec)
  with whole have "y = of_int 24" by (rule rev_mp)
  with tcell ts_eq have from_text: "cell_at (df_rows (setitem text_sheet ?rth [FloatC 24]) ! 0) ?rth
      = FloatC 24"
    by simp

  have edge_ex: "excel_file (excel_world edge_sheet) = Inr edge_sheet" by simp
  have edge_ok: "fst (extract_itsm_data pandas2 (excel_world edge_sheet)) = Inr ()"
    by (rule extractor_returns_on_sheet [OF edge_sheet_hours])
  have edge_i: "0 < length (df_rows edge_sheet)" by (simp add: edge_sheet_def)
  have edge_c: "to_datetime_cell pandas2 (cell_at (df_rows edge_sheet ! 0) ''inc_sys_created_on'') =
      Inr (Some (2 ^ 63 - 1))"
    and edge_r: "to_datetime_cell pandas2 (cell_at (df_rows edge_sheet ! 0) ''inc_resolved_at'') =
      Inr (Some (- 1))"
    by (simp_all add: edge_sheet_def source_ticket_def cell_at_def)
  have edge_d: "(- 1 :: int) - (2 ^ 63 - 1) = - (2 ^ 63)" by simp
  from resolution_time_is_rounded_quotient [OF edge_ex edge_ok edge_i edge_c edge_r, THEN conjunct1]
  obtain es where es: "resolution_time_hours pandas2 edge_sheet = Inr es"
    and enat: "(- 1 :: int) - (2 ^ 63 - 1) = - (2 ^ 63) \<longrightarrow>
      cell_at (df_rows (setitem edge_sheet ?rth es) ! 0) ?rth = NullC"
    by (elim exE conjE) (rule that; assumption)
  from es have es_eq: "es = [NullC]" by (simp add: edge_sheet_hours)
  from enat [THEN mp, OF edge_d] es_eq
  have edge: "cell_at (df_rows (setitem edge_sheet ?rth [NullC]) ! 0) ?rth = NullC"
    by simp

  have small: "\<bar>24 :: int\<bar> < 2 ^ 53" by simp
  show ?thesis
    by (intro conjI day_ex day_ok day_c day_r ne rep acc small d s day
        text_ex text_ok text_c text_r from_text edge_ex edge_ok edge_c edge_r edge_d edge)
qed

lemma unresolved_ticket_has_no_duration:
  assumes "resolution_time_hours pd df = Inr hs" and "i < length (df_rows df)"
    and "cell_at (df_rows df ! i) ''inc_resolved_at'' = NullC"
  shows "hs ! i = NullC"
proof -
  from resolution_time_hours_row [OF assms(1,2)] assms(3)
  obtain b d where "sub_datetime None b = Inr d" and "hs ! i = hours_cell pd d"
    by auto
  then show ?thesis by (auto simp: sub_datetime_def hours_cell_def)
qed


section \<open>Facts about the task graph\<close>

lemma dag_edges_eq:
  "dag_edges =
     {(extract_data_task, create_staging_table_task),
      (create_staging_table_task, load_data_task),
      (load_data_task, data_quality_task),
      (data_quality_task, run_dbt_task),
      (run_dbt_task, run_dbt_tests_task)}"
  by (auto simp: dag_edges_def rshift_def)

lemma upstream_simps:
  "upstream extract_data_task = {}"
  "upstream create_staging_table_task = {extract_data_task}"
  "upstream load_data_task = {create_staging_table_task}"
  "upstream data_quality_task = {load_data_task}"
  "upstream run_dbt_task = {data_quality_task}"
  "upstream run_dbt_tests_task = {run_dbt_task}"
  by (auto simp: upstream_def dag_edges_eq image_iff)

lemma downstream_simps:
  "downstream extract_data_task = {create_staging_table_task}"
  "downstream create_staging_table_task = {load_data_task}"
  "downstream load_data_task = {data_quality_task}"
  "downstream data_quality_task = {run_dbt_task}"
  "downstream run_dbt_task = {run_dbt_tests_task}"
  "downstream run_dbt_tests_task = {}"
  by (auto simp: downstream_def dag_edges_eq image_iff)

lemma next_task:
  assumes "n \<le> 6" and "t \<notin> set (take n pipeline_order)"
    and "upstream t \<subseteq> set (take n pipeline_order)"
  shows "n < 6 \<and> t = pipeline_order ! n"
proof -
  from assms(1) consider "n = 0" | "n = 1" | "n = 2" | "n = 3" | "n = 4" | "n = 5" | "n = 6"
    by linarith
  then show ?thesis
  proof cases
    case 1
    with assms(2,3) show ?thesis
      by (cases t) (simp_all add: pipeline_order_def upstream_simps)
  next
    case 2
    with assms(2,3) show ?thesis
      by (cases t) (simp_all add: pipeline_order_def upstream_simps)
  next
    case 3
    with assms(2,3) show ?thesis
      by (cases t) (simp_all add: pipeline_order_def upstream_simps eval_nat_numeral)
  next
    case 4
    with assms(2,3) show ?thesis
      by (cases t) (simp_all add: pipeline_order_def upstream_simps eval_nat_numeral)
  next
    case 5
    with assms(2,3) show ?thesis
      by (cases t) (simp_all add: pipeline_order_def upstream_simps eval_nat_numeral)
  next
    case 6
    with assms(2,3) show ?thesis
      by (cases t) (simp_all add: pipeline_order_def upstream_simps eval_nat_numeral)
  next
    case 7
    with assms(2,3) show ?thesis
      by (cases t) (simp_all add: pipeline_order_def upstream_simps eval_nat_numeral)
  qed
qed

lemma runs_in_order_prefix:
  "runs_in_order (take n pipeline_order) ts \<Longrightarrow> n \<le> 6 \<Longrightarrow>
     ts = take (length ts) (drop n pipeline_order)"
proof (induction ts arbitrary: n)
  case Nil
  then show ?case by simp
next
  case (Cons t ts)
  from Cons.prems have t: "t \<notin> set (take n pipeline_order)"
    "upstream t \<subseteq> set (take n pipeline_order)"
    and rest: "runs_in_order (take n pipeline_order @ [t]) ts"
    by simp_all
  from next_task [OF Cons.prems(2) t] have n: "n < 6" and tn: "t = pipeline_order ! n"
    by simp_all
  have len: "length pipeline_order = 6" by (simp add: pipeline_order_def)
  have "take n pipeline_order @ [t] = take (Suc n) pipeline_order"
    using n tn len by (simp add: take_Suc_conv_app_nth)
  with rest have "runs_in_order (take (Suc n) pipeline_order) ts" by simp
  then have "ts = take (length ts) (drop (Suc n) pipeline_order)"
    using n by (intro Cons.IH) simp_all
  moreover have "drop n pipeline_order = t # drop (Suc n) pipeline_order"
    using n tn len by (simp add: Cons_nth_drop_Suc)
  ultimately show ?case by simp
qed

lemma runs_in_order_pipeline: "k \<le> 6 \<Longrightarrow> runs_in_order [] (take k pipeline_order)"
proof -
  assume "k \<le> 6"
  then consider "k = 0" | "k = 1" | "k = 2" | "k = 3" | "k = 4" | "k = 5" | "k = 6"
    by linarith
  then show ?thesis
    by cases (simp_all add: pipeline_order_def upstream_simps eval_nat_numeral)
qed

lemma runs_in_order_iff: "runs_in_order [] ts \<longleftrightarrow> ts = take (length ts) pipeline_order"
proof
  assume "runs_in_order [] ts"
  then have "runs_in_order (take 0 pipeline_order) ts" by simp
  from runs_in_order_prefix [OF this] show "ts = take (length ts) pipeline_order" by simp
next
  assume eq: "ts = take (length ts) pipeline_order"
  have "length (take (length ts) pipeline_order) \<le> 6"
    by (simp add: pipeline_order_def)
  with eq have "length ts \<le> 6" by simp
  from runs_in_order_pipeline [OF this] eq show "runs_in_order [] ts" by simp
qed

lemma runs_in_order_upstream:
  "runs_in_order done ts \<Longrightarrow> j < length ts \<Longrightarrow>
     upstream (ts ! j) \<subseteq> set done \<union> set (take j ts)"
proof (induction ts arbitrary: "done" j)
  case Nil
  then show ?case by simp
next
  case (Cons t ts)
  show ?case
  proof (cases j)
    case 0
    with Cons.prems show ?thesis by simp
  next
    case (Suc k)
    with Cons.prems have "runs_in_order (done @ [t]) ts" and "k < length ts" by simp_all
    then have "upstream (ts ! k) \<subseteq> set (done @ [t]) \<union> set (take k ts)"
      by (rule Cons.IH)
    with Suc show ?thesis by auto
  qed
qed

lemma upstream_iff: "a \<in> upstream b \<longleftrightarrow> (a, b) \<in> dag_edges"
  by (force simp: upstream_def)

lemma predecessor_runs_first:
  assumes "runs_in_order [] ts" and "(a, b) \<in> dag_edges" and "b \<in> set ts"
  shows "\<exists>i j. i < j \<and> j < length ts \<and> ts ! i = a \<and> ts ! j = b"
proof -
  from assms(3) obtain j where j: "j < length ts" "ts ! j = b"
    by (auto simp: in_set_conv_nth)
  from runs_in_order_upstream [OF assms(1) j(1)] assms(2) j(2)
  have "a \<in> set (take j ts)" by (auto simp: upstream_iff)
  then obtain i where "i < length (take j ts)" "take j ts ! i = a"
    by (auto simp: in_set_conv_nth)
  then have "i < j" "ts ! i = a" using j(1) by simp_all
  with j show ?thesis by blast
qed

text \<open>
  Claim C8. The edges the two dependency statements declare are exactly the pairs of
  consecutive tasks of the chain extractor, schema initializer, loader, quality checker,
  transformer, transform verifier, which lists every task once. Every task but the first
  has exactly one upstream task and every task but the last exactly one downstream task.
  The sequences in which tasks can run, each only after its upstream tasks have completed,
  are the initial segments of the chain; so in any such sequence a task's predecessor
  occurs before the task.
\<close>

theorem task_graph_is_linear_chain:
  "dag_edges = set (zip pipeline_order (tl pipeline_order)) \<and>
   distinct pipeline_order \<and> set pipeline_order = UNIV \<and>
   (\<forall>t. card (upstream t) = (if t = extract_data_task then 0 else 1)) \<and>
   (\<forall>t. card (downstream t) = (if t = run_dbt_tests_task then 0 else 1)) \<and>
   (\<forall>ts. runs_in_order [] ts \<longleftrightarrow> ts = take (length ts) pipeline_order) \<and>
   (\<forall>ts a b. runs_in_order [] ts \<and> (a, b) \<in> dag_edges \<and> b \<in> set ts \<longrightarrow>
      (\<exists>i j. i < j \<and> j < length ts \<and> ts ! i = a \<and> ts ! j = b))"
proof -
  have edges: "dag_edges = set (zip pipeline_order (tl pipeline_order))"
    by (simp add: dag_edges_eq pipeline_order_def)
  have dist: "distinct pipeline_order" by (simp add: pipeline_order_def)
  have all: "set pipeline_order = UNIV"
  proof -
    have "t \<in> set pipeline_order" for t by (cases t) (simp_all add: pipeline_order_def)
    then show ?thesis by blast
  qed
  have up: "\<forall>t. card (upstream t) = (if t = extract_data_task then 0 else 1)"
  proof
    fix t show "card (upstream t) = (if t = extract_data_task then 0 else 1)"
      by (cases t) (simp_all add: upstream_simps)
  qed
  have down: "\<forall>t. card (downstream t) = (if t = run_dbt_tests_task then 0 else 1)"
  proof
    fix t show "card (downstream t) = (if t = run_dbt_tests_task then 0 else 1)"
      by (cases t) (simp_all add: downstream_simps)
  qed
  have order: "\<forall>ts. runs_in_order [] ts \<longleftrightarrow> ts = take (length ts) pipeline_order"
    using runs_in_order_iff by blast
  have pred: "\<forall>ts a b. runs_in_order [] ts \<and> (a, b) \<in> dag_edges \<and> b \<in> set ts \<longrightarrow>
      (\<exists>i j. i < j \<and> j < length ts \<and> ts ! i = a \<and> ts ! j = b)"
    using predecessor_runs_first by blast
  show ?thesis by (intro conjI edges dist all up down order pred)
qed

theorem task_graph_is_linear_chain_witness:
  "runs_in_order [] pipeline_order \<and>
   (load_data_task, data_quality_task) \<in> dag_edges \<and>
   data_quality_task \<in> set pipeline_order \<and>
   (\<exists>i j. i < j \<and> j < length pipeline_order \<and> pipeline_order ! i = load_data_task \<and>
          pipeline_order ! j = data_quality_task)"
proof -
  have run: "runs_in_order [] pipeline_order"
    using runs_in_order_pipeline [of 6] by (simp add: pipeline_order_def)
  have edge: "(load_data_task, data_quality_task) \<in> dag_edges"
    by (simp add: dag_edges_eq)
  have mem: "data_quality_task \<in> set pipeline_order"
    by (simp add: pipeline_order_def)
  from task_graph_is_linear_chain run edge mem show ?thesis by blast
qed


section \<open>Errors of the tasks\<close>

text \<open>
  Claim C7. Each of the three task functions raises \<open>e\<close> exactly when one of its steps
  raises \<open>e\<close>: the exception its body raised reaches the caller unchanged, after an error
  entry naming the task and the exception has been added to what the body had logged.
  When a task returns normally all of its steps have run: the extractor has read the
  sheet, computed the durations and written the frame with the new column to the staging
  file; the loader has read the staging file and replaced the relation with its table;
  the checker has run both queries and logged its closing entry. No task returns normally
  after a step has failed.
\<close>

theorem task_errors_are_logged_and_reraised:
  "((fst (extract_itsm_data pd w) = Inl e \<longleftrightarrow>
       excel_file w = Inl e \<or>
       (\<exists>df. excel_file w = Inr df \<and>
          (resolution_time_hours pd df = Inl e \<or>
           (\<exists>h. resolution_time_hours pd df = Inr h) \<and> csv_write_fault w = Some e))) \<and>
    (fst (extract_itsm_data pd w) = Inl e \<longrightarrow>
       fst (extract_itsm_data_body pd w) = Inl e \<and>
       logs (snd (extract_itsm_data pd w)) =
         logs (snd (extract_itsm_data_body pd w)) @ [Error_extraction e]) \<and>
    (fst (extract_itsm_data pd w) = Inr () \<longrightarrow>
       (\<exists>df h. excel_file w = Inr df \<and> resolution_time_hours pd df = Inr h \<and>
          csv_write_fault w = None \<and>
          staging_csv (snd (extract_itsm_data pd w)) =
            read_back pd (setitem df ''resolution_time_hours'' h) \<and>
          new_logs w (snd (extract_itsm_data pd w)) =
            [Info_extracted (length (df_rows df)), Info_columns (df_columns df),
             Info_missing (filter (\<lambda>(c, n). 0 < n) (isnull_sum df)), Info_saved]))) \<and>
   ((fst (load_to_postgres w) = Inl e \<longleftrightarrow>
       staging_csv w = Inl e \<or>
       (\<exists>df. staging_csv w = Inr df) \<and>
         (db_fault w GetEngine = Some e \<or>
          db_fault w GetEngine = None \<and> db_fault w ToSql = Some e)) \<and>
    (fst (load_to_postgres w) = Inl e \<longrightarrow>
       fst (load_to_postgres_body w) = Inl e \<and>
       logs (snd (load_to_postgres w)) =
         logs (snd (load_to_postgres_body w)) @ [Error_loading e]) \<and>
    (fst (load_to_postgres w) = Inr () \<longrightarrow>
       (\<exists>df. staging_csv w = Inr df \<and>
          itsm_raw_tickets (snd (load_to_postgres w)) = Some (table_of_frame df) \<and>
          new_logs w (snd (load_to_postgres w)) = [Info_loaded (length (df_rows df))]))) \<and>
   ((fst (run_data_quality_checks w) = Inl e \<longleftrightarrow>
       duplicate_query w = Inl e \<or>
       (\<exists>d. duplicate_query w = Inr d) \<and> outlier_query w = Inl e) \<and>
    (fst (run_data_quality_checks w) = Inl e \<longrightarrow>
       fst (run_data_quality_checks_body w) = Inl e \<and>
       logs (snd (run_data_quality_checks w)) =
         logs (snd (run_data_quality_checks_body w)) @ [Error_checks e]) \<and>
    (fst (run_data_quality_checks w) = Inr () \<longrightarrow>
       (\<exists>d n. duplicate_query w = Inr d \<and> outlier_query w = Inr n \<and>
          last (logs (snd (run_data_quality_checks w))) = Info_checks_completed)))"
  by (rule conjI [OF extractor_fails_or_completes
        conjI [OF loader_fails_or_completes checker_fails_or_completes]])

lemma day_sheet_extracts:
  "extract_itsm_data pandas2 (excel_world day_sheet) =
      (Inr (), (excel_world day_sheet)
         \<lparr>staging_csv := read_back pandas2 (setitem day_sheet ''resolution_time_hours'' [FloatC 24, NullC]),
          logs := logs (excel_world day_sheet) @
            [Info_extracted (length (df_rows day_sheet)), Info_columns (df_columns day_sheet),
             Info_missing (filter (\<lambda>(c, n). 0 < n) (isnull_sum day_sheet)), Info_saved]\<rparr>)"
  by (rule extract_itsm_data_returns) (simp_all add: day_sheet_hours)

theorem task_errors_are_logged_and_reraised_witness:
  "excel_file (quiet_world None) =
     Inl (FileNotFoundError ''Sample-Data-file-for-Analysis_Jan-25-1.xlsx'') \<and>
   fst (extract_itsm_data pandas2 (quiet_world None)) =
     Inl (FileNotFoundError ''Sample-Data-file-for-Analysis_Jan-25-1.xlsx'') \<and>
   logs (snd (extract_itsm_data pandas2 (quiet_world None))) =
     logs (snd (extract_itsm_data_body pandas2 (quiet_world None))) @
     [Error_extraction (FileNotFoundError ''Sample-Data-file-for-Analysis_Jan-25-1.xlsx'')] \<and>
   staging_csv (quiet_world None) = Inl (FileNotFoundError ''/tmp/itsm_staging.csv'') \<and>
   fst (load_to_postgres (quiet_world None)) =
     Inl (FileNotFoundError ''/tmp/itsm_staging.csv'') \<and>
   logs (snd (load_to_postgres (quiet_world None))) =
     logs (snd (load_to_postgres_body (quiet_world None))) @
     [Error_loading (FileNotFoundError ''/tmp/itsm_staging.csv'')] \<and>
   duplicate_query (quiet_world None) = Inl (UndefinedTable ''itsm_raw_tickets'') \<and>
   fst (run_data_quality_checks (quiet_world None)) = Inl (UndefinedTable ''itsm_raw_tickets'') \<and>
   logs (snd (run_data_quality_checks (quiet_world None))) =
     logs (snd (run_data_quality_checks_body (quiet_world None))) @
     [Error_checks (UndefinedTable ''itsm_raw_tickets'')] \<and>
   fst (extract_itsm_data pandas2 (excel_world day_sheet)) = Inr () \<and>
   (\<exists>df h. excel_file (excel_world day_sheet) = Inr df \<and>
      staging_csv (snd (extract_itsm_data pandas2 (excel_world day_sheet))) =
        read_back pandas2 (setitem df ''resolution_time_hours'' h)) \<and>
   fst (load_to_postgres staged_world) = Inr () \<and>
   (\<exists>df. staging_csv staged_world = Inr df \<and>
      itsm_raw_tickets (snd (load_to_postgres staged_world)) =
        Some (table_of_frame df)) \<and>
   fst (run_data_quality_checks (quiet_world (Some (loaded_table four_tickets)))) = Inr () \<and>
   last (logs (snd (run_data_quality_checks (quiet_world (Some (loaded_table four_tickets))))))
     = Info_checks_completed"
proof -
  let ?x = "FileNotFoundError ''Sample-Data-file-for-Analysis_Jan-25-1.xlsx''"
  let ?c = "FileNotFoundError ''/tmp/itsm_staging.csv''"
  let ?t = "UndefinedTable ''itsm_raw_tickets''"
  let ?q = "quiet_world (Some (loaded_table four_tickets))"
  have no_sheet: "excel_file (quiet_world None) = Inl ?x"
    and no_file: "staging_csv (quiet_world None) = Inl ?c"
    and no_table: "duplicate_query (quiet_world None) = Inl ?t"
    by (simp_all add: quiet_world_def duplicate_query_def)
  note x = task_errors_are_logged_and_reraised [of pandas2 "quiet_world None" ?x, THEN conjunct1]
  note c = task_errors_are_logged_and_reraised
      [of pandas2 "quiet_world None" ?c, THEN conjunct2, THEN conjunct1]
  note t = task_errors_are_logged_and_reraised
      [of pandas2 "quiet_world None" ?t, THEN conjunct2, THEN conjunct2]
  have x1: "fst (extract_itsm_data pandas2 (quiet_world None)) = Inl ?x"
    by (rule iffD2 [OF x [THEN conjunct1]]) (simp add: no_sheet)
  from x [THEN conjunct2, THEN conjunct1, THEN mp, OF x1]
  have x2: "logs (snd (extract_itsm_data pandas2 (quiet_world None))) =
     logs (snd (extract_itsm_data_body pandas2 (quiet_world None))) @ [Error_extraction ?x]"
    by (rule conjunct2)
  have c1: "fst (load_to_postgres (quiet_world None)) = Inl ?c"
    by (rule iffD2 [OF c [THEN conjunct1]]) (simp add: no_file)
  from c [THEN conjunct2, THEN conjunct1, THEN mp, OF c1]
  have c2: "logs (snd (load_to_postgres (quiet_world None))) =
     logs (snd (load_to_postgres_body (quiet_world None))) @ [Error_loading ?c]"
    by (rule conjunct2)
  have t1: "fst (run_data_quality_checks (quiet_world None)) = Inl ?t"
    by (rule iffD2 [OF t [THEN conjunct1]]) (simp add: no_table)
  from t [THEN conjunct2, THEN conjunct1, THEN mp, OF t1]
  have t2: "logs (snd (run_data_quality_checks (quiet_world None))) =
     logs (snd (run_data_quality_checks_body (quiet_world None))) @ [Error_checks ?t]"
    by (rule conjunct2)
  have e1: "fst (extract_itsm_data pandas2 (excel_world day_sheet)) = Inr ()"
    by (simp only: day_sheet_extracts fst_conv)
  from task_errors_are_logged_and_reraised
      [of pandas2 "excel_world day_sheet", THEN conjunct1, THEN conjunct2, THEN conjunct2,
       THEN mp, OF e1]
  have e2: "\<exists>df h. excel_file (excel_world day_sheet) = Inr df \<and>
      staging_csv (snd (extract_itsm_data pandas2 (excel_world day_sheet))) =
        read_back pandas2 (setitem df ''resolution_time_hours'' h)"
    by (elim exE conjE) (intro exI conjI; assumption)
  have l1: "fst (load_to_postgres staged_world) = Inr ()"
    by (simp only: staged_world_loads fst_conv)
  from task_errors_are_logged_and_reraised
      [of pandas2 staged_world, THEN conjunct2, THEN conjunct1, THEN conjunct2, THEN conjunct2,
       THEN mp, OF l1]
  have l2: "\<exists>df. staging_csv staged_world = Inr df \<and>
      itsm_raw_tickets (snd (load_to_postgres staged_world)) =
        Some (table_of_frame df)"
    by (elim exE conjE) (intro exI conjI; assumption)
  have q1: "fst (run_data_quality_checks ?q) = Inr ()"
    by (simp only: checks_logs [OF four_tickets_duplicates four_tickets_outliers] fst_conv)
  from task_errors_are_logged_and_reraised
      [of pandas2 ?q, THEN conjunct2, THEN conjunct2, THEN conjunct2, THEN conjunct2,
       THEN mp, OF q1]
  have q2: "last (logs (snd (run_data_quality_checks ?q))) = Info_checks_completed"
    by (elim exE conjE)
  show ?thesis
    by (intro conjI no_sheet x1 x2 no_file c1 c2 no_table t1 t2 e1 e2 l1 l2 q1 q2)
qed


section \<open>Missing durations\<close>

text \<open>
  Claim C10, amended. A row whose \<^verbatim>\<open>resolution_time_hours\<close> is NULL is not counted by
  the outlier query, so it never counts toward the outlier warning: the condition is true
  only of rows with a present duration strictly below 0 or strictly above 720, and taking
  a row with a NULL duration out of the relation leaves the outlier count as it is. The
  duplicate check does not read the duration: whatever the durations of the rows are, its
  count is the same, so a row with a NULL duration counts in the group of its incident
  number like any other row. The extractor gives a row without a resolution timestamp a
  missing duration.
\<close>

theorem null_duration_is_no_outlier:
  "(cell_at r ''resolution_time_hours'' = NullC \<longrightarrow>
      outlier_condition r \<noteq> Some True \<and>
      outlier_count (xs @ r # ys) = outlier_count (xs @ ys)) \<and>
   (outlier_condition r = Some True \<longleftrightarrow>
      (\<exists>x. sql_num (cell_at r ''resolution_time_hours'') = Some x \<and> (x < 0 \<or> 720 < x))) \<and>
   duplicate_count (map (\<lambda>r. r(''resolution_time_hours'' \<mapsto> h r)) rs) = duplicate_count rs \<and>
   (resolution_time_hours pd df = Inr hs \<and> i < length (df_rows df) \<and>
    cell_at (df_rows df ! i) ''inc_resolved_at'' = NullC \<longrightarrow> hs ! i = NullC)"
proof (intro conjI impI)
  assume n: "cell_at r ''resolution_time_hours'' = NullC"
  then show "outlier_condition r \<noteq> Some True"
    by (simp add: outlier_condition_flagged)
  then show "outlier_count (xs @ r # ys) = outlier_count (xs @ ys)"
    by (simp add: outlier_count_def)
next
  show "outlier_condition r = Some True \<longleftrightarrow>
      (\<exists>x. sql_num (cell_at r ''resolution_time_hours'') = Some x \<and> (x < 0 \<or> 720 < x))"
    by (cases "cell_at r ''resolution_time_hours''")
       (auto simp: outlier_condition_flagged)
next
  show "duplicate_count (map (\<lambda>r. r(''resolution_time_hours'' \<mapsto> h r)) rs) = duplicate_count rs"
    by (simp add: duplicate_count_def group_count_def comp_def cell_at_upd_other filter_map)
next
  assume "resolution_time_hours pd df = Inr hs \<and> i < length (df_rows df) \<and>
    cell_at (df_rows df ! i) ''inc_resolved_at'' = NullC"
  then show "hs ! i = NullC"
    using unresolved_ticket_has_no_duration [of pd df hs i] by blast
qed

theorem null_duration_is_no_outlier_witness:
  "cell_at (ticket ''INC001'' NullC) ''resolution_time_hours'' = NullC \<and>
   outlier_count four_tickets =
     outlier_count [ticket ''INC001'' (FloatC 800), ticket ''INC001'' (FloatC (- 1)),
                    ticket ''INC002'' (FloatC 5)] \<and>
   resolution_time_hours pandas2 day_sheet = Inr [FloatC 24, NullC] \<and>
   cell_at (df_rows day_sheet ! 1) ''inc_resolved_at'' = NullC \<and>
   [FloatC 24, NullC] ! 1 = NullC"
proof -
  have a: "cell_at (ticket ''INC001'' NullC) ''resolution_time_hours'' = NullC" by simp
  have b: "resolution_time_hours pandas2 day_sheet = Inr [FloatC 24, NullC] \<and>
      1 < length (df_rows day_sheet) \<and>
      cell_at (df_rows day_sheet ! 1) ''inc_resolved_at'' = NullC"
    by (simp add: day_sheet_hours) (simp add: day_sheet_def source_ticket_def cell_at_def)
  note t = null_duration_is_no_outlier
          [of "ticket ''INC001'' NullC"
              "[ticket ''INC001'' (FloatC 800), ticket ''INC001'' (FloatC (- 1))]"
              "[ticket ''INC002'' (FloatC 5)]" _ _ pandas2 day_sheet "[FloatC 24, NullC]" 1]
  from t a have "outlier_count
      ([ticket ''INC001'' (FloatC 800), ticket ''INC001'' (FloatC (- 1))] @
       ticket ''INC001'' NullC # [ticket ''INC002'' (FloatC 5)]) =
     outlier_count ([ticket ''INC001'' (FloatC 800), ticket ''INC001'' (FloatC (- 1))] @
       [ticket ''INC002'' (FloatC 5)])"
    by blast
  then have c: "outlier_count four_tickets =
     outlier_count [ticket ''INC001'' (FloatC 800), ticket ''INC001'' (FloatC (- 1)),
                    ticket ''INC002'' (FloatC 5)]"
    by (simp add: four_tickets_def)
  from t b have d: "[FloatC 24, NullC] ! 1 = NullC" by blast
  from b show ?thesis by (intro conjI a c d) simp_all
qed


section \<open>A run of the first three tasks\<close>

text \<open>
  The extractor, the schema initializer and the loader run in this order on the sheet of
  the duration example. The staging file holds the two timestamp columns as text, as
  \<^verbatim>\<open>read_csv\<close> returns them, so the relation the loader leaves has them as \<open>TEXT\<close>
  and the duration as \<open>FLOAT53\<close>, in place of the declared schema the initializer created.
\<close>

lemma initialized_world_eq:
  "staging_csv initialized_world =
     read_back pandas2 (setitem day_sheet ''resolution_time_hours'' [FloatC 24, NullC])"
  "itsm_raw_tickets initialized_world = Some \<lparr>tbl_columns = staging_schema, tbl_rows = []\<rparr>"
  "db_fault initialized_world = (\<lambda>c. None)"
  unfolding initialized_world_def day_sheet_extracts snd_conv
  by (simp_all add: create_staging_table_def excel_world_def quiet_world_def)

lemma initialized_world_columns:
  "\<exists>df. staging_csv initialized_world = Inr df \<and>
     map (\<lambda>c. (c, sqlalchemy_type (map (\<lambda>r. cell_at r c) (df_rows df)))) (df_columns df) =
       [(''inc_number'', TEXT), (''inc_sys_created_on'', TEXT), (''inc_resolved_at'', TEXT),
        (''resolution_time_hours'', FLOAT53)]"
  by (simp add: initialized_world_eq pandas2_def setitem_def day_sheet_def source_ticket_def
      cell_at_def csv_cell_def sqlalchemy_type_def is_bool_def is_int_def is_number_def
      is_timestamp_def)

lemma pipeline_run_replaces_declared_schema:
  "fst (load_to_postgres initialized_world) = Inr () \<and>
   map_option tbl_columns (itsm_raw_tickets initialized_world) = Some staging_schema \<and>
   map_option tbl_columns (itsm_raw_tickets (snd (load_to_postgres initialized_world))) =
     Some [(''inc_number'', TEXT), (''inc_sys_created_on'', TEXT), (''inc_resolved_at'', TEXT),
           (''resolution_time_hours'', FLOAT53)]"
proof -
  from initialized_world_columns obtain df
    where df: "staging_csv initialized_world = Inr df"
      and cols: "map (\<lambda>c. (c, sqlalchemy_type (map (\<lambda>r. cell_at r c) (df_rows df))))
                   (df_columns df) =
        [(''inc_number'', TEXT), (''inc_sys_created_on'', TEXT), (''inc_resolved_at'', TEXT),
         (''resolution_time_hours'', FLOAT53)]"
    by (elim exE conjE)
  have run: "load_to_postgres initialized_world =
     (Inr (), initialized_world\<lparr>itsm_raw_tickets := Some (table_of_frame df),
                       logs := logs initialized_world @ [Info_loaded (length (df_rows df))]\<rparr>)"
    by (rule load_to_postgres_returns) (simp_all add: df initialized_world_eq)
  show ?thesis
    by (simp add: run initialized_world_eq table_of_frame_def cols)
qed

end
